theory Spec2Isabelle
  imports Main "HOL-Library.Word"
begin

section \<open>Python values\<close>

text \<open>
  The rule engine of \<^verbatim>\<open>rule_engine.py\<close> works on what \<^verbatim>\<open>json.load\<close> returns and on
  the record dictionaries of the mail store. Both are dynamically typed, so the model has
  one type of Python values. A string is a list of characters, each a code point below
  256. A dictionary is an association list in insertion order, its keys being strings (the
  only keys JSON objects and the record dictionaries have) and pairwise distinct; a lookup
  takes the first pair with the key. A float is kept as its 64 bits
  and is never looked into. A \<^verbatim>\<open>datetime\<close> is its wall-clock reading in microseconds since
  0001-01-01T00:00:00 and, when it is timezone-aware, its UTC offset in microseconds.
\<close>

datatype pydatetime = Datetime (wall: int) (utcoffset: "int option")

datatype pyval =
    VNone
  | VBool bool
  | VInt int
  | VFloat "64 word"
  | VStr string
  | VList "pyval list"
  | VDict "(string \<times> pyval) list"
  | VDatetime pydatetime

text \<open>The exceptions the code can meet. An exception is the left summand of a result.\<close>

datatype py_exc =
    TypeError
  | KeyError
  | AttributeError
  | ValueError
  | OverflowError
  | RecursionError
  | ParserError
  | FileNotFoundError
  | JSONDecodeError
  | PermissionError
  | IsADirectoryError
  | UnicodeDecodeError

definition bind_exc :: "py_exc + 'a \<Rightarrow> ('a \<Rightarrow> py_exc + 'b) \<Rightarrow> py_exc + 'b" where
  "bind_exc m f = (case m of Inl e \<Rightarrow> Inl e | Inr v \<Rightarrow> f v)"

text \<open>\<^verbatim>\<open>try: ... except Exception as e: logger.error(...); return False\<close>\<close>

definition except_false :: "py_exc + bool \<Rightarrow> bool" where
  "except_false m = (case m of Inl e \<Rightarrow> False | Inr b \<Rightarrow> b)"

subsection \<open>Strings\<close>

fun starts_with :: "string \<Rightarrow> string \<Rightarrow> bool" where
  "starts_with s [] = True"
| "starts_with [] (p # ps) = False"
| "starts_with (c # cs) (p # ps) = (c = p \<and> starts_with cs ps)"

text \<open>\<^verbatim>\<open>sub in s\<close> on two strings: \<open>sub\<close> occurs in \<open>s\<close> as a contiguous run.\<close>

fun str_contains :: "string \<Rightarrow> string \<Rightarrow> bool" where
  "str_contains [] sub = (sub = [])"
| "str_contains (c # cs) sub = (starts_with (c # cs) sub \<or> str_contains cs sub)"

text \<open>
  \<^verbatim>\<open>str.lower()\<close> on code points below 256: the letters A to Z and the accented capitals
  U+00C0 to U+00DE (U+00D7, the multiplication sign, is no letter) move up by 32.
\<close>

definition lower_char :: "char \<Rightarrow> char" where
  "lower_char c =
     (let n = (of_char c :: nat)
      in if (65 \<le> n \<and> n \<le> 90) \<or> (192 \<le> n \<and> n \<le> 222 \<and> n \<noteq> 215)
         then char_of (n + 32) else c)"

definition py_lower :: "string \<Rightarrow> string" where
  "py_lower s = map lower_char s"

subsection \<open>Operators on values\<close>

text \<open>\<^verbatim>\<open>v == 'literal'\<close>: only a string equals a string.\<close>

fun str_eq :: "pyval \<Rightarrow> string \<Rightarrow> bool" where
  "str_eq (VStr s) t = (s = t)"
| "str_eq v t = False"

text \<open>\<^verbatim>\<open>v in ['a', 'b', ...]\<close>: membership in a list of string literals compares with ==.\<close>

definition in_strs :: "pyval \<Rightarrow> string list \<Rightarrow> bool" where
  "in_strs v lits = list_ex (str_eq v) lits"

text \<open>
  \<^verbatim>\<open>'key' in obj\<close>: a key of a dictionary, an element of a list, a substring of a string;
  any other value is not iterable and the test raises TypeError.
\<close>

fun py_in :: "string \<Rightarrow> pyval \<Rightarrow> py_exc + bool" where
  "py_in k (VDict d) = Inr (map_of d k \<noteq> None)"
| "py_in k (VList xs) = Inr (list_ex (\<lambda>x. str_eq x k) xs)"
| "py_in k (VStr s) = Inr (str_contains s k)"
| "py_in k v = Inl TypeError"

text \<open>
  \<^verbatim>\<open>obj['key']\<close>: the value of the key in a dictionary (KeyError when it is missing);
  a list or a string takes integer indices only, the other values take none (TypeError).
\<close>

fun py_getitem :: "pyval \<Rightarrow> string \<Rightarrow> py_exc + pyval" where
  "py_getitem (VDict d) k = (case map_of d k of None \<Rightarrow> Inl KeyError | Some v \<Rightarrow> Inr v)"
| "py_getitem v k = Inl TypeError"

text \<open>\<^verbatim>\<open>d.get(k, default)\<close> on a dictionary.\<close>

definition dict_get :: "(string \<times> pyval) list \<Rightarrow> string \<Rightarrow> pyval \<Rightarrow> pyval" where
  "dict_get d k fallback = (case map_of d k of None \<Rightarrow> fallback | Some v \<Rightarrow> v)"

text \<open>\<^verbatim>\<open>d[k] = v\<close> on a dictionary: an existing key keeps its place, a new key goes last.\<close>

fun dict_set :: "(string \<times> 'v) list \<Rightarrow> string \<Rightarrow> 'v \<Rightarrow> (string \<times> 'v) list" where
  "dict_set [] k v = [(k, v)]"
| "dict_set ((k', v') # d) k v = (if k' = k then (k, v) # d else (k', v') # dict_set d k v)"

section \<open>Configuration (config.py)\<close>

definition FIELD_MAPPING :: "(string \<times> string) list" where
  "FIELD_MAPPING =
     [(''From'', ''from_address''),
      (''To'', ''to_address''),
      (''Subject'', ''subject''),
      (''Message'', ''message''),
      (''Received'', ''received_date'')]"

definition STRING_PREDICATES :: "string list" where
  "STRING_PREDICATES = [''Contains'', ''Does not Contain'', ''Equals'', ''Does not equal'']"

definition DATE_PREDICATES :: "string list" where
  "DATE_PREDICATES = [''Less than'', ''Greater than'']"

definition ACTIONS :: "string list" where
  "ACTIONS = [''mark_unread'', ''mark_read'', ''move_message'']"

text \<open>
  \<^verbatim>\<open>FIELD_MAPPING.get(v)\<close> hashes \<open>v\<close>: a list or a dictionary is unhashable (TypeError);
  a string is looked up; any other value is hashable and is no key of the table.
\<close>

fun field_mapping_get :: "pyval \<Rightarrow> py_exc + string option" where
  "field_mapping_get (VStr s) = Inr (map_of FIELD_MAPPING s)"
| "field_mapping_get (VList xs) = Inl TypeError"
| "field_mapping_get (VDict d) = Inl TypeError"
| "field_mapping_get v = Inr None"

text \<open>\<^verbatim>\<open>v in FIELD_MAPPING\<close> hashes \<open>v\<close> the same way.\<close>

definition in_field_mapping :: "pyval \<Rightarrow> py_exc + bool" where
  "in_field_mapping v = bind_exc (field_mapping_get v) (\<lambda>r. Inr (r \<noteq> None))"

section \<open>Validation\<close>

text \<open>The methods \<^verbatim>\<open>_validate_rule\<close>, \<^verbatim>\<open>_validate_condition\<close> and \<^verbatim>\<open>_validate_action\<close>.\<close>

text \<open>
  \<^verbatim>\<open>for field in required: if field not in obj: return False\<close>.
  The result is whether the loop ran to its end.
\<close>

fun has_required :: "string list \<Rightarrow> pyval \<Rightarrow> py_exc + bool" where
  "has_required [] obj = Inr True"
| "has_required (f # fs) obj =
     bind_exc (py_in f obj) (\<lambda>present.
       if \<not> present then Inr False else has_required fs obj)"

definition validate_condition_body :: "pyval \<Rightarrow> py_exc + bool" where
  "validate_condition_body condition =
     bind_exc (has_required [''field'', ''predicate'', ''value''] condition) (\<lambda>complete.
       if \<not> complete then Inr False else
     bind_exc (py_getitem condition ''field'') (\<lambda>field.
     bind_exc (in_field_mapping field) (\<lambda>known.
       if \<not> known then Inr False else
     bind_exc (py_getitem condition ''field'') (\<lambda>field_name.
     bind_exc (py_getitem condition ''predicate'') (\<lambda>predicate.
       if str_eq field_name ''Received''
       then (if \<not> in_strs predicate DATE_PREDICATES then Inr False else Inr True)
       else (if \<not> in_strs predicate STRING_PREDICATES then Inr False else Inr True))))))"

definition validate_condition :: "pyval \<Rightarrow> bool" where
  "validate_condition condition = except_false (validate_condition_body condition)"

fun is_bool :: "pyval \<Rightarrow> bool" where
  "is_bool (VBool b) = True"
| "is_bool v = False"

fun is_str :: "pyval \<Rightarrow> bool" where
  "is_str (VStr s) = True"
| "is_str v = False"

definition validate_action_body :: "pyval \<Rightarrow> py_exc + bool" where
  "validate_action_body action =
     bind_exc (py_in ''type'' action) (\<lambda>typed.
       if \<not> typed then Inr False else
     bind_exc (py_getitem action ''type'') (\<lambda>ty.
       if \<not> in_strs ty ACTIONS then Inr False else
       if str_eq ty ''mark_read'' then
         bind_exc (py_in ''value'' action) (\<lambda>valued.
           if \<not> valued then Inr False else
         bind_exc (py_getitem action ''value'') (\<lambda>v.
           if \<not> is_bool v then Inr False else Inr True))
       else if str_eq ty ''mark_unread'' then Inr True
       else if str_eq ty ''move_message'' then
         bind_exc (py_in ''value'' action) (\<lambda>valued.
           if \<not> valued then Inr False else
         bind_exc (py_getitem action ''value'') (\<lambda>v.
           if \<not> is_str v then Inr False else Inr True))
       else Inr True))"

definition validate_action :: "pyval \<Rightarrow> bool" where
  "validate_action action = except_false (validate_action_body action)"

text \<open>\<^verbatim>\<open>for x in xs: if not self._validate(x): return False\<close>; whether the loop ran to its end.\<close>

fun all_pass :: "(pyval \<Rightarrow> bool) \<Rightarrow> pyval list \<Rightarrow> bool" where
  "all_pass validate [] = True"
| "all_pass validate (x # xs) = (if \<not> validate x then False else all_pass validate xs)"

definition validate_rule_body :: "pyval \<Rightarrow> py_exc + bool" where
  "validate_rule_body rule =
     bind_exc (has_required [''predicate'', ''conditions'', ''actions''] rule) (\<lambda>complete.
       if \<not> complete then Inr False else
     bind_exc (py_getitem rule ''predicate'') (\<lambda>predicate.
       if \<not> in_strs predicate [''All'', ''Any''] then Inr False else
     bind_exc (py_getitem rule ''conditions'') (\<lambda>conditions.
       case conditions of
         VList cs \<Rightarrow>
           if \<not> all_pass validate_condition cs then Inr False else
           bind_exc (py_getitem rule ''actions'') (\<lambda>actions.
             case actions of
               VList acts \<Rightarrow> if \<not> all_pass validate_action acts then Inr False else Inr True
             | other \<Rightarrow> Inr False)
       | other \<Rightarrow> Inr False)))"

definition validate_rule :: "pyval \<Rightarrow> bool" where
  "validate_rule rule = except_false (validate_rule_body rule)"


section \<open>Loading\<close>

text \<open>The method \<^verbatim>\<open>_load_rules\<close>.\<close>

record engine =
  rules_file :: string
  rules :: "pyval list"

text \<open>
  \<^verbatim>\<open>for rule in rules: if self._validate_rule(rule): valid_rules.append(rule)\<close>,
  the second argument being \<^verbatim>\<open>valid_rules\<close> so far.
\<close>

fun valid_rules_loop :: "pyval list \<Rightarrow> pyval list \<Rightarrow> pyval list" where
  "valid_rules_loop [] valid_rules = valid_rules"
| "valid_rules_loop (rule # rest) valid_rules =
     (if validate_rule rule
      then valid_rules_loop rest (valid_rules @ [rule])
      else valid_rules_loop rest valid_rules)"

text \<open>
  The file system and \<^verbatim>\<open>json.load\<close> are outside the program: \<open>read_json path\<close> is what
  \<^verbatim>\<open>open(path, 'r')\<close> followed by \<^verbatim>\<open>json.load(f)\<close> gives, the parsed value or the
  exception raised (FileNotFoundError for a missing file, PermissionError for an unreadable
  one, IsADirectoryError for a directory, UnicodeDecodeError for bytes that are not text,
  JSONDecodeError for text that is not JSON). The method has handlers for
  FileNotFoundError and JSONDecodeError only; any other exception leaves it, with
  \<^verbatim>\<open>self.rules\<close> as it was.
\<close>

definition load_rules :: "(string \<Rightarrow> py_exc + pyval) \<Rightarrow> engine \<Rightarrow> py_exc + engine" where
  "load_rules read_json self =
     (case read_json (rules_file self) of
        Inr data \<Rightarrow>
          (case data of
             VList rs \<Rightarrow> Inr (self\<lparr>rules := valid_rules_loop rs []\<rparr>)
           | VDict d \<Rightarrow> Inr (self\<lparr>rules := valid_rules_loop [data] []\<rparr>)
           | other \<Rightarrow> Inr (self\<lparr>rules := []\<rparr>))
      | Inl e \<Rightarrow>
          (case e of
             FileNotFoundError \<Rightarrow> Inr (self\<lparr>rules := []\<rparr>)
           | JSONDecodeError \<Rightarrow> Inr (self\<lparr>rules := []\<rparr>)
           | other \<Rightarrow> Inl e))"

text \<open>\<^verbatim>\<open>RuleEngine(rules_file)\<close>: the constructor sets both attributes and loads.\<close>

definition init_engine :: "(string \<Rightarrow> py_exc + pyval) \<Rightarrow> string \<Rightarrow> py_exc + engine" where
  "init_engine read_json path = load_rules read_json \<lparr>rules_file = path, rules = []\<rparr>"

definition reload_rules :: "(string \<Rightarrow> py_exc + pyval) \<Rightarrow> engine \<Rightarrow> py_exc + engine" where
  "reload_rules read_json self = load_rules read_json self"

section \<open>Evaluation\<close>

text \<open>
  What evaluation takes from outside the program: the reading of \<^verbatim>\<open>datetime.now()\<close>
  (a naive datetime, given by its wall-clock microseconds); \<^verbatim>\<open>dateutil.parser.parse\<close>;
  the text \<^verbatim>\<open>repr\<close> prints for a float; the texts \<^verbatim>\<open>str\<close> and \<^verbatim>\<open>repr\<close> print for a
  datetime; and the number of nested containers \<^verbatim>\<open>repr\<close> can enter before the
  interpreter's recursion limit stops it.
\<close>

record runtime =
  datetime_now :: int
  parser_parse :: "string \<Rightarrow> py_exc + pydatetime"
  float_repr :: "64 word \<Rightarrow> string"
  datetime_str :: "pydatetime \<Rightarrow> string"
  datetime_repr :: "pydatetime \<Rightarrow> string"
  repr_depth :: nat

subsection \<open>Text of a value\<close>

definition digit_char :: "nat \<Rightarrow> char" where
  "digit_char n = char_of (48 + n)"

fun str_nat :: "nat \<Rightarrow> string" where
  "str_nat n = (if n < 10 then [digit_char n] else str_nat (n div 10) @ [digit_char (n mod 10)])"

definition str_int :: "int \<Rightarrow> string" where
  "str_int i = (if i < 0 then CHR ''-'' # str_nat (nat (- i)) else str_nat (nat i))"

text \<open>
  The limit on conversions between \<^verbatim>\<open>int\<close> and \<^verbatim>\<open>str\<close>
  (\<^verbatim>\<open>sys.int_info.default_max_str_digits\<close>): a conversion of more than 4300 digits, the
  sign not counted, raises ValueError.
\<close>

definition MAX_STR_DIGITS :: nat where
  "MAX_STR_DIGITS = 4300"

text \<open>\<^verbatim>\<open>str(i)\<close> and \<^verbatim>\<open>repr(i)\<close> of an integer.\<close>

definition int_str :: "int \<Rightarrow> py_exc + string" where
  "int_str i =
     (if MAX_STR_DIGITS < length (str_nat (nat \<bar>i\<bar>)) then Inl ValueError else Inr (str_int i))"

text \<open>
  \<^verbatim>\<open>repr(s)\<close> of a string: double quotes when the string has a single quote and no double
  quote, single quotes otherwise; the quote and the backslash are escaped by a backslash,
  tab, newline and carriage return by their letters, and every other character that is
  not printable (below U+0020, U+007F to U+00A0, U+00AD) by a backslash, the letter x and
  two hexadecimal digits.
\<close>

definition hex_digit :: "nat \<Rightarrow> char" where
  "hex_digit n = (if n < 10 then char_of (48 + n) else char_of (87 + n))"

definition escape_char :: "char \<Rightarrow> char \<Rightarrow> string" where
  "escape_char quote c =
     (let n = (of_char c :: nat)
      in if c = quote \<or> c = CHR 0x5C then [CHR 0x5C, c]
         else if n = 9 then [CHR 0x5C, CHR ''t'']
         else if n = 10 then [CHR 0x5C, CHR ''n'']
         else if n = 13 then [CHR 0x5C, CHR ''r'']
         else if n < 32 \<or> (127 \<le> n \<and> n \<le> 160) \<or> n = 173
         then [CHR 0x5C, CHR ''x'', hex_digit (n div 16), hex_digit (n mod 16)]
         else [c])"

definition str_repr :: "string \<Rightarrow> string" where
  "str_repr s =
     (let quote = (if CHR 0x27 \<in> set s \<and> CHR 0x22 \<notin> set s then CHR 0x22 else CHR 0x27)
      in quote # concat (map (escape_char quote) s) @ [quote])"

text \<open>\<^verbatim>\<open>sep.join(parts)\<close>\<close>

fun py_join :: "string \<Rightarrow> string list \<Rightarrow> string" where
  "py_join sep [] = []"
| "py_join sep [p] = p"
| "py_join sep (p # q # ps) = p @ sep @ py_join sep (q # ps)"

text \<open>The results of a run of calls, from left to right, up to the first that raises.\<close>

fun collect :: "(py_exc + 'a) list \<Rightarrow> py_exc + 'a list" where
  "collect [] = Inr []"
| "collect (r # rs) = bind_exc r (\<lambda>x. bind_exc (collect rs) (\<lambda>xs. Inr (x # xs)))"

text \<open>
  \<^verbatim>\<open>repr(v)\<close>, the second argument being the number of nested containers that may still be
  entered: a list prints the \<^verbatim>\<open>repr\<close> of its elements between brackets, a dictionary the
  \<^verbatim>\<open>repr\<close> of each key and value between braces, and a container met when no level is
  left raises RecursionError.
\<close>

fun py_repr :: "runtime \<Rightarrow> nat \<Rightarrow> pyval \<Rightarrow> py_exc + string" where
  "py_repr rt depth VNone = Inr ''None''"
| "py_repr rt depth (VBool b) = Inr (if b then ''True'' else ''False'')"
| "py_repr rt depth (VInt i) = int_str i"
| "py_repr rt depth (VFloat w) = Inr (float_repr rt w)"
| "py_repr rt depth (VStr s) = Inr (str_repr s)"
| "py_repr rt depth (VDatetime d) = Inr (datetime_repr rt d)"
| "py_repr rt 0 (VList xs) = Inl RecursionError"
| "py_repr rt (Suc depth) (VList xs) =
     bind_exc (collect (map (py_repr rt depth) xs)) (\<lambda>parts.
       Inr (''['' @ py_join '', '' parts @ '']''))"
| "py_repr rt 0 (VDict d) = Inl RecursionError"
| "py_repr rt (Suc depth) (VDict d) =
     bind_exc (collect (map (\<lambda>kv. bind_exc (py_repr rt depth (snd kv)) (\<lambda>text.
                                   Inr (str_repr (fst kv) @ '': '' @ text))) d)) (\<lambda>parts.
       Inr (''{'' @ py_join '', '' parts @ ''}''))"

text \<open>
  \<^verbatim>\<open>str(v)\<close>: a string is its own text, a datetime has a text of its own, and every other
  value prints as \<^verbatim>\<open>repr\<close> prints it.
\<close>

fun py_str :: "runtime \<Rightarrow> pyval \<Rightarrow> py_exc + string" where
  "py_str rt (VStr s) = Inr s"
| "py_str rt (VDatetime d) = Inr (datetime_str rt d)"
| "py_str rt v = py_repr rt (repr_depth rt) v"

subsection \<open>String conditions\<close>

text \<open>
  The method \<^verbatim>\<open>_check_string_condition\<close>. Its two conversions to text can raise; the
  handler of the method then returns false.
\<close>

definition check_string_condition_body :: "runtime \<Rightarrow> pyval \<Rightarrow> pyval \<Rightarrow> pyval \<Rightarrow> py_exc + bool" where
  "check_string_condition_body rt email_value0 predicate value0 =
     bind_exc (py_str rt email_value0) (\<lambda>email_text.
     bind_exc (py_str rt value0) (\<lambda>value_text.
       let email_value = py_lower email_text;
           value = py_lower value_text
       in if str_eq predicate ''Contains'' then Inr (str_contains email_value value)
          else if str_eq predicate ''Does not Contain'' then Inr (\<not> str_contains email_value value)
          else if str_eq predicate ''Equals'' then Inr (email_value = value)
          else if str_eq predicate ''Does not equal'' then Inr (email_value \<noteq> value)
          else Inr False))"

definition check_string_condition :: "runtime \<Rightarrow> pyval \<Rightarrow> pyval \<Rightarrow> pyval \<Rightarrow> bool" where
  "check_string_condition rt email_value predicate value =
     except_false (check_string_condition_body rt email_value predicate value)"

subsection \<open>Date conditions\<close>

text \<open>The method \<^verbatim>\<open>_check_date_condition\<close> and the library calls it makes.\<close>

text \<open>\<^verbatim>\<open>str.split()\<close> cuts at runs of whitespace and drops empty pieces.\<close>

definition is_space :: "char \<Rightarrow> bool" where
  "is_space c =
     (let n = (of_char c :: nat)
      in (9 \<le> n \<and> n \<le> 13) \<or> (28 \<le> n \<and> n \<le> 32) \<or> n = 133 \<or> n = 160)"

fun split_loop :: "string \<Rightarrow> string \<Rightarrow> string list" where
  "split_loop [] cur = (if cur = [] then [] else [cur])"
| "split_loop (c # cs) cur =
     (if is_space c
      then (if cur = [] then split_loop cs [] else cur # split_loop cs [])
      else split_loop cs (cur @ [c]))"

definition py_split :: "string \<Rightarrow> string list" where
  "py_split s = split_loop s []"

text \<open>\<^verbatim>\<open>value.split()\<close>: only a string has the method.\<close>

fun value_split :: "pyval \<Rightarrow> py_exc + string list" where
  "value_split (VStr s) = Inr (py_split s)"
| "value_split v = Inl AttributeError"

text \<open>
  \<^verbatim>\<open>int(token)\<close>: an optional sign, then decimal digits, single underscores allowed between
  digits; anything else is a ValueError, and so is a token of more than 4300 digits
  (leading zeros counted, underscores and the sign not). The whitespace \<^verbatim>\<open>int\<close> strips
  first cannot occur in a token of \<^verbatim>\<open>split()\<close>.
\<close>

definition is_digit :: "char \<Rightarrow> bool" where
  "is_digit c = (let n = (of_char c :: nat) in 48 \<le> n \<and> n \<le> 57)"

definition digit_val :: "char \<Rightarrow> int" where
  "digit_val c = of_char c - 48"

fun parse_digits :: "string \<Rightarrow> int \<Rightarrow> int option" where
  "parse_digits [] acc = Some acc"
| "parse_digits [c] acc = (if is_digit c then Some (acc * 10 + digit_val c) else None)"
| "parse_digits (c # d # ds) acc =
     (if is_digit c then parse_digits (d # ds) (acc * 10 + digit_val c)
      else if c = CHR ''_'' \<and> is_digit d then parse_digits ds (acc * 10 + digit_val d)
      else None)"

text \<open>The digits after the sign: at least one, the first of them no underscore.\<close>

definition parse_unsigned :: "string \<Rightarrow> int option" where
  "parse_unsigned s =
     (case s of
        [] \<Rightarrow> None
      | c # cs \<Rightarrow> if is_digit c then parse_digits cs (digit_val c) else None)"

definition py_int :: "string \<Rightarrow> py_exc + int" where
  "py_int s =
     (if MAX_STR_DIGITS < length (filter is_digit s) then Inl ValueError
      else case s of
        [] \<Rightarrow> Inl ValueError
      | c # cs \<Rightarrow>
          if c = CHR ''-'' then
            (case parse_unsigned cs of None \<Rightarrow> Inl ValueError | Some n \<Rightarrow> Inr (- n))
          else if c = CHR ''+'' then
            (case parse_unsigned cs of None \<Rightarrow> Inl ValueError | Some n \<Rightarrow> Inr n)
          else
            (case parse_unsigned s of None \<Rightarrow> Inl ValueError | Some n \<Rightarrow> Inr n))"

text \<open>
  \<^verbatim>\<open>timedelta(days=n)\<close>, in microseconds: the day count is limited to 999999999 either way.
\<close>

definition timedelta_days :: "int \<Rightarrow> py_exc + int" where
  "timedelta_days n =
     (if n < - 999999999 \<or> 999999999 < n then Inl OverflowError else Inr (n * 86400000000))"

text \<open>The reading of \<^verbatim>\<open>datetime.max\<close>, 9999-12-31T23:59:59.999999 (day 3652059).\<close>

definition MAX_WALL :: int where
  "MAX_WALL = 3652059 * 86400000000 - 1"

text \<open>\<^verbatim>\<open>d - delta\<close>: the result must be a date of the years 1 to 9999.\<close>

definition datetime_sub :: "pydatetime \<Rightarrow> int \<Rightarrow> py_exc + pydatetime" where
  "datetime_sub d delta =
     (let w = wall d - delta
      in if w < 0 \<or> MAX_WALL < w then Inl OverflowError else Inr (Datetime w (utcoffset d)))"

text \<open>
  \<^verbatim>\<open>a < b\<close> and \<^verbatim>\<open>a > b\<close> with \<open>b\<close> a datetime: two naive datetimes compare by their
  readings, two aware ones by their instants, a naive and an aware one do not compare
  (TypeError, "can't compare offset-naive and offset-aware datetimes"), and neither does
  a value that is no datetime.
\<close>

fun datetime_lt :: "pyval \<Rightarrow> pydatetime \<Rightarrow> py_exc + bool" where
  "datetime_lt (VDatetime a) b =
     (case utcoffset a of
        None \<Rightarrow> (case utcoffset b of None \<Rightarrow> Inr (wall a < wall b) | Some y \<Rightarrow> Inl TypeError)
      | Some x \<Rightarrow> (case utcoffset b of None \<Rightarrow> Inl TypeError | Some y \<Rightarrow> Inr (wall a - x < wall b - y)))"
| "datetime_lt v b = Inl TypeError"

fun datetime_gt :: "pyval \<Rightarrow> pydatetime \<Rightarrow> py_exc + bool" where
  "datetime_gt (VDatetime a) b =
     (case utcoffset a of
        None \<Rightarrow> (case utcoffset b of None \<Rightarrow> Inr (wall a > wall b) | Some y \<Rightarrow> Inl TypeError)
      | Some x \<Rightarrow> (case utcoffset b of None \<Rightarrow> Inl TypeError | Some y \<Rightarrow> Inr (wall a - x > wall b - y)))"
| "datetime_gt v b = Inl TypeError"

text \<open>The first step: a string is parsed, any other value is taken as it is.\<close>

fun parse_email_date :: "runtime \<Rightarrow> pyval \<Rightarrow> py_exc + pyval" where
  "parse_email_date rt (VStr s) = bind_exc (parser_parse rt s) (\<lambda>d. Inr (VDatetime d))"
| "parse_email_date rt v = Inr v"

text \<open>The last step: the comparison the predicate asks for.\<close>

definition compare_dates :: "pyval \<Rightarrow> pyval \<Rightarrow> pydatetime \<Rightarrow> py_exc + bool" where
  "compare_dates predicate email_datetime comparison_date =
     (if str_eq predicate ''Less than'' then datetime_lt email_datetime comparison_date
      else if str_eq predicate ''Greater than'' then datetime_gt email_datetime comparison_date
      else Inr False)"

definition check_date_condition_body :: "runtime \<Rightarrow> pyval \<Rightarrow> pyval \<Rightarrow> pyval \<Rightarrow> py_exc + bool" where
  "check_date_condition_body rt email_date predicate value =
     bind_exc (parse_email_date rt email_date) (\<lambda>email_datetime.
     bind_exc (value_split value) (\<lambda>parts.
       case parts of
         [p0, p1] \<Rightarrow>
           (case py_int p0 of
              Inl e \<Rightarrow> Inr False
            | Inr number \<Rightarrow>
                let unit = py_lower p1;
                    now = Datetime (datetime_now rt) None
                in if unit \<in> set [''day'', ''days''] then
                     bind_exc (timedelta_days number) (\<lambda>delta.
                     bind_exc (datetime_sub now delta) (\<lambda>comparison_date.
                       compare_dates predicate email_datetime comparison_date))
                   else if unit \<in> set [''month'', ''months''] then
                     bind_exc (timedelta_days (number * 30)) (\<lambda>delta.
                     bind_exc (datetime_sub now delta) (\<lambda>comparison_date.
                       compare_dates predicate email_datetime comparison_date))
                   else Inr False)
       | other \<Rightarrow> Inr False))"

definition check_date_condition :: "runtime \<Rightarrow> pyval \<Rightarrow> pyval \<Rightarrow> pyval \<Rightarrow> bool" where
  "check_date_condition rt email_date predicate value =
     except_false (check_date_condition_body rt email_date predicate value)"

subsection \<open>Conditions\<close>

text \<open>The method \<^verbatim>\<open>evaluate_condition\<close>.\<close>

text \<open>\<^verbatim>\<open>email.get(db_field, '')\<close>: only a dictionary has the method.\<close>

fun email_get :: "pyval \<Rightarrow> string \<Rightarrow> py_exc + pyval" where
  "email_get (VDict d) k = Inr (dict_get d k (VStr []))"
| "email_get v k = Inl AttributeError"

definition evaluate_condition_body :: "runtime \<Rightarrow> pyval \<Rightarrow> pyval \<Rightarrow> py_exc + bool" where
  "evaluate_condition_body rt condition email =
     bind_exc (py_getitem condition ''field'') (\<lambda>field_name.
     bind_exc (py_getitem condition ''predicate'') (\<lambda>predicate.
     bind_exc (py_getitem condition ''value'') (\<lambda>value.
     bind_exc (field_mapping_get field_name) (\<lambda>db_field.
       case db_field of
         None \<Rightarrow> Inr False
       | Some column \<Rightarrow>
           if column = [] then Inr False else
           bind_exc (email_get email column) (\<lambda>email_value.
             if str_eq field_name ''Received''
             then Inr (check_date_condition rt email_value predicate value)
             else Inr (check_string_condition rt email_value predicate value))))))"

definition evaluate_condition :: "runtime \<Rightarrow> pyval \<Rightarrow> pyval \<Rightarrow> bool" where
  "evaluate_condition rt condition email = except_false (evaluate_condition_body rt condition email)"


subsection \<open>Rules\<close>

text \<open>The method \<^verbatim>\<open>evaluate_rule\<close>.\<close>

text \<open>\<^verbatim>\<open>not conditions\<close> is the negation of the truth value of \<open>conditions\<close>.\<close>

fun truthy :: "pyval \<Rightarrow> bool" where
  "truthy VNone = False"
| "truthy (VBool b) = b"
| "truthy (VInt i) = (i \<noteq> 0)"
| "truthy (VFloat w) = (w \<noteq> 0 \<and> w \<noteq> 0x8000000000000000)"
| "truthy (VStr s) = (s \<noteq> [])"
| "truthy (VList xs) = (xs \<noteq> [])"
| "truthy (VDict d) = (d \<noteq> [])"
| "truthy (VDatetime d) = True"

text \<open>
  \<^verbatim>\<open>for condition in conditions\<close>: a list gives its elements, a dictionary its keys, a
  string its characters; nothing else can be iterated (TypeError).
\<close>

fun py_iter :: "pyval \<Rightarrow> py_exc + pyval list" where
  "py_iter (VList xs) = Inr xs"
| "py_iter (VDict d) = Inr (map (\<lambda>kv. VStr (fst kv)) d)"
| "py_iter (VStr s) = Inr (map (\<lambda>c. VStr [c]) s)"
| "py_iter v = Inl TypeError"

text \<open>
  \<^verbatim>\<open>result = await self.evaluate_condition(condition, email); results.append(result)\<close>,
  the last argument being \<^verbatim>\<open>results\<close> so far.
\<close>

fun results_loop :: "runtime \<Rightarrow> pyval \<Rightarrow> pyval list \<Rightarrow> bool list \<Rightarrow> bool list" where
  "results_loop rt email [] results = results"
| "results_loop rt email (condition # rest) results =
     results_loop rt email rest (results @ [evaluate_condition rt condition email])"

fun py_all :: "bool list \<Rightarrow> bool" where
  "py_all [] = True"
| "py_all (b # bs) = (if \<not> b then False else py_all bs)"

fun py_any :: "bool list \<Rightarrow> bool" where
  "py_any [] = False"
| "py_any (b # bs) = (if b then True else py_any bs)"

definition evaluate_rule_body :: "runtime \<Rightarrow> pyval \<Rightarrow> pyval \<Rightarrow> py_exc + bool" where
  "evaluate_rule_body rt rule email =
     bind_exc (py_getitem rule ''predicate'') (\<lambda>predicate.
     bind_exc (py_getitem rule ''conditions'') (\<lambda>conditions.
       if \<not> truthy conditions then Inr False else
     bind_exc (py_iter conditions) (\<lambda>items.
       let results = results_loop rt email items []
       in if str_eq predicate ''All'' then Inr (py_all results)
          else if str_eq predicate ''Any'' then Inr (py_any results)
          else Inr False)))"

definition evaluate_rule :: "runtime \<Rightarrow> pyval \<Rightarrow> pyval \<Rightarrow> bool" where
  "evaluate_rule rt rule email = except_false (evaluate_rule_body rt rule email)"

subsection \<open>Batches\<close>

text \<open>The methods \<^verbatim>\<open>get_matching_emails\<close> and \<^verbatim>\<open>process_emails\<close>.\<close>

fun matching_loop :: "runtime \<Rightarrow> pyval \<Rightarrow> pyval list \<Rightarrow> pyval list \<Rightarrow> pyval list" where
  "matching_loop rt rule [] matching = matching"
| "matching_loop rt rule (email # rest) matching =
     (if evaluate_rule rt rule email
      then matching_loop rt rule rest (matching @ [email])
      else matching_loop rt rule rest matching)"

definition get_matching_emails :: "runtime \<Rightarrow> pyval list \<Rightarrow> pyval \<Rightarrow> pyval list" where
  "get_matching_emails rt emails rule = matching_loop rt rule emails []"

text \<open>
  \<^verbatim>\<open>for i, rule in enumerate(self.rules)\<close>, with \<open>i\<close> the index of the rule at the head of
  the list and the last argument \<^verbatim>\<open>results\<close> so far.
\<close>

fun process_loop ::
  "runtime \<Rightarrow> pyval list \<Rightarrow> nat \<Rightarrow> pyval list \<Rightarrow> (string \<times> pyval) list \<Rightarrow> (string \<times> pyval) list" where
  "process_loop rt emails i [] results = results"
| "process_loop rt emails i (rule # rest) results =
     (let rule_name = ''rule_'' @ str_int (int i + 1);
          matching = get_matching_emails rt emails rule
      in process_loop rt emails (Suc i) rest
           (dict_set results rule_name
              (VDict [(''rule'', rule),
                      (''matching_emails'', VList matching),
                      (''count'', VInt (int (length matching)))])))"

definition process_emails :: "runtime \<Rightarrow> engine \<Rightarrow> pyval list \<Rightarrow> (string \<times> pyval) list" where
  "process_emails rt self emails = process_loop rt emails 0 (rules self) []"

section \<open>The specification's reading of validity\<close>

text \<open>
  The structural validity the specification describes, written from its words and not from
  the code: a rule is an object with the three keys, its predicate one of the two
  combinators, its conditions and actions lists of valid conditions and valid actions.
\<close>

definition FIELD_NAMES :: "string list" where
  "FIELD_NAMES = [''From'', ''To'', ''Subject'', ''Message'', ''Received'']"

definition spec_valid_condition :: "pyval \<Rightarrow> bool" where
  "spec_valid_condition c =
     (case c of
        VDict d \<Rightarrow>
          (case (map_of d ''field'', map_of d ''predicate'', map_of d ''value'') of
             (Some (VStr f), Some (VStr p), Some v) \<Rightarrow>
               f \<in> set FIELD_NAMES \<and>
               (if f = ''Received'' then p \<in> set DATE_PREDICATES else p \<in> set STRING_PREDICATES)
           | other \<Rightarrow> False)
      | other \<Rightarrow> False)"

definition spec_valid_action :: "pyval \<Rightarrow> bool" where
  "spec_valid_action a =
     (case a of
        VDict d \<Rightarrow>
          (case map_of d ''type'' of
             Some (VStr ty) \<Rightarrow>
               if ty = ''mark_read''
               then (case map_of d ''value'' of Some (VBool b) \<Rightarrow> True | other \<Rightarrow> False)
               else if ty = ''move_message''
               then (case map_of d ''value'' of Some (VStr s) \<Rightarrow> True | other \<Rightarrow> False)
               else ty = ''mark_unread''
           | other \<Rightarrow> False)
      | other \<Rightarrow> False)"

definition spec_valid_rule :: "pyval \<Rightarrow> bool" where
  "spec_valid_rule r =
     (case r of
        VDict d \<Rightarrow>
          (case (map_of d ''predicate'', map_of d ''conditions'', map_of d ''actions'') of
             (Some (VStr p), Some (VList cs), Some (VList acts)) \<Rightarrow>
               (p = ''All'' \<or> p = ''Any'') \<and>
               list_all spec_valid_condition cs \<and> list_all spec_valid_action acts
           | other \<Rightarrow> False)
      | other \<Rightarrow> False)"

section \<open>The specification's reading of a batch result\<close>

text \<open>
  The label of the rule at a 1-based position, and the entry the specification promises
  for a rule: the rule itself, the records matching it in input order, and their number.
\<close>

definition rule_label :: "nat \<Rightarrow> string" where
  "rule_label position = ''rule_'' @ str_nat position"

definition result_entry :: "runtime \<Rightarrow> pyval list \<Rightarrow> pyval \<Rightarrow> pyval" where
  "result_entry rt emails rule =
     VDict [(''rule'', rule),
            (''matching_emails'', VList (filter (evaluate_rule rt rule) emails)),
            (''count'', VInt (int (length (filter (evaluate_rule rt rule) emails))))]"

section \<open>The specification's reading of text fields and case variants\<close>

text \<open>The fields the specification calls text fields: every field but the date.\<close>

definition TEXT_FIELDS :: "string list" where
  "TEXT_FIELDS = [''From'', ''To'', ''Subject'', ''Message'']"




section \<open>The specification's reading of the date threshold\<close>

text \<open>
  The number of days a unit stands for (a month counts as 30 days), the threshold
  \<open>now - days\<close> as a reading in microseconds, and whether Python can represent the day
  count as a \<^verbatim>\<open>timedelta\<close> and the threshold as a \<^verbatim>\<open>datetime\<close>.
\<close>

definition unit_days :: "string \<Rightarrow> int option" where
  "unit_days unit =
     (if unit \<in> set [''day'', ''days''] then Some 1
      else if unit \<in> set [''month'', ''months''] then Some 30
      else None)"

definition threshold :: "runtime \<Rightarrow> int \<Rightarrow> int" where
  "threshold rt days = datetime_now rt - days * 86400000000"

definition representable :: "runtime \<Rightarrow> int \<Rightarrow> bool" where
  "representable rt days =
     (- 999999999 \<le> days \<and> days \<le> 999999999 \<and>
      0 \<le> threshold rt days \<and> threshold rt days \<le> MAX_WALL)"

section \<open>Fixtures\<close>

text \<open>
  Concrete rules, documents and records, most of them those of the test suite
  (\<^verbatim>\<open>tests/test_rule_engine.py\<close>); the properties below are run on them.
\<close>

definition valid_rule_fields :: "(string \<times> pyval) list" where
  "valid_rule_fields =
     [(''predicate'', VStr ''All''),
      (''conditions'',
         VList [VDict [(''field'', VStr ''From''), (''predicate'', VStr ''Contains''),
                       (''value'', VStr ''test@example.com'')],
                VDict [(''field'', VStr ''Subject''), (''predicate'', VStr ''Contains''),
                       (''value'', VStr ''important'')]]),
      (''actions'', VList [VDict [(''type'', VStr ''mark_read''), (''value'', VBool True)]])]"

definition valid_rule_fixture :: pyval where
  "valid_rule_fixture = VDict valid_rule_fields"

definition invalid_rule_fixture :: pyval where
  "invalid_rule_fixture = VDict [(''predicate'', VStr ''All''), (''conditions'', VList [])]"

definition fixture_source :: "string \<Rightarrow> py_exc + pyval" where
  "fixture_source path = Inr (VList [invalid_rule_fixture, valid_rule_fixture])"

definition fresh_engine :: engine where
  "fresh_engine = \<lparr>rules_file = ''rules.json'', rules = []\<rparr>"

text \<open>
  A runtime for the fixtures: the clock reads 2024-12-31T00:00:00, the date parser knows
  three ISO texts (two days before the clock, ten days before it, and the latter with a
  UTC offset, as \<^verbatim>\<open>gmail_fetcher.py\<close> stores the date of a fetched message), the
  fixtures hold no float and no datetime object, so one text stands for each, and
  \<^verbatim>\<open>repr\<close> may enter 50 nested containers.
\<close>

definition test_parse :: "string \<Rightarrow> py_exc + pydatetime" where
  "test_parse s =
     (if s = ''2024-12-29T00:00:00'' then Inr (Datetime 63871027200000000 None)
      else if s = ''2024-12-21T00:00:00'' then Inr (Datetime 63870336000000000 None)
      else if s = ''2024-12-21T00:00:00+00:00'' then Inr (Datetime 63870336000000000 (Some 0))
      else Inl ParserError)"

definition test_float_repr :: "64 word \<Rightarrow> string" where
  "test_float_repr w = ''nan''"

definition test_datetime_text :: "pydatetime \<Rightarrow> string" where
  "test_datetime_text d = ''2024-12-31 00:00:00''"

definition test_runtime :: runtime where
  "test_runtime =
     \<lparr>datetime_now = 63871200000000000, parser_parse = test_parse,
      float_repr = test_float_repr, datetime_str = test_datetime_text,
      datetime_repr = test_datetime_text, repr_depth = 50\<rparr>"

definition sample_fields :: "(string \<times> pyval) list" where
  "sample_fields =
     [(''id'', VStr ''test_email_123''),
      (''thread_id'', VStr ''thread_456''),
      (''from_address'', VStr ''test@example.com''),
      (''to_address'', VStr ''user@gmail.com''),
      (''subject'', VStr ''Important test email''),
      (''message'', VStr ''This is an important test message''),
      (''is_read'', VBool False),
      (''labels'', VList [VStr ''INBOX'', VStr ''UNREAD''])]"

definition sample_email :: pyval where
  "sample_email = VDict sample_fields"

definition spam_email :: pyval where
  "spam_email =
     VDict [(''id'', VStr ''m2''),
            (''from_address'', VStr ''spam@example.org''),
            (''subject'', VStr ''Offer'')]"

definition loaded_engine :: engine where
  "loaded_engine = \<lparr>rules_file = ''rules.json'', rules = [valid_rule_fixture]\<rparr>"

definition any_rule_fixture :: pyval where
  "any_rule_fixture =
     VDict [(''predicate'', VStr ''Any''),
            (''conditions'',
               VList [VDict [(''field'', VStr ''From''), (''predicate'', VStr ''Contains''),
                             (''value'', VStr ''nonexistent'')],
                      VDict [(''field'', VStr ''Subject''), (''predicate'', VStr ''Contains''),
                             (''value'', VStr ''important'')]]),
            (''actions'', VList [])]"


definition null_subject_fields :: "(string \<times> pyval) list" where
  "null_subject_fields = [(''id'', VStr ''m3''), (''from_address'', VStr ''a@b.c''), (''subject'', VNone)]"

definition no_subject_fields :: "(string \<times> pyval) list" where
  "no_subject_fields = [(''id'', VStr ''m4''), (''from_address'', VStr ''a@b.c'')]"


text \<open>
  Sources: a file that does not exist, a file the process may not read, and a document
  whose rule carries a key the engine does not know.
\<close>

definition unreadable_source :: "string \<Rightarrow> py_exc + pyval" where
  "unreadable_source path = Inl PermissionError"

definition missing_source :: "string \<Rightarrow> py_exc + pyval" where
  "missing_source path = Inl FileNotFoundError"

definition annotated_action :: "(string \<times> pyval) list" where
  "annotated_action = [(''type'', VStr ''mark_unread''), (''value'', VInt 5)]"

definition annotated_condition :: "(string \<times> pyval) list" where
  "annotated_condition =
     [(''field'', VStr ''To''), (''predicate'', VStr ''Equals''), (''value'', VStr ''user@gmail.com'')]"

definition annotated_source :: "string \<Rightarrow> py_exc + pyval" where
  "annotated_source path =
     Inr (VList [VDict (dict_set valid_rule_fields ''name'' (VStr ''first rule''))])"

text \<open>
  An integer of 4301 digits, the least that \<^verbatim>\<open>str\<close> refuses to print, and a record
  holding it as its subject.
\<close>

definition huge_int :: int where
  "huge_int = 10 ^ MAX_STR_DIGITS"

definition huge_subject_fields :: "(string \<times> pyval) list" where
  "huge_subject_fields = [(''id'', VStr ''m5''), (''subject'', VInt huge_int)]"





text \<open>Records whose subject is a number, a truth value and a list of labels.\<close>

definition number_subject_fields :: "(string \<times> pyval) list" where
  "number_subject_fields = [(''id'', VStr ''m8''), (''subject'', VInt 42)]"

definition flag_subject_fields :: "(string \<times> pyval) list" where
  "flag_subject_fields = [(''id'', VStr ''m9''), (''subject'', VBool True)]"

definition labels_subject_fields :: "(string \<times> pyval) list" where
  "labels_subject_fields =
     [(''id'', VStr ''m10''), (''subject'', VList [VStr ''INBOX'', VInt 1, VNone])]"

definition subject_predicate :: "string \<Rightarrow> string \<Rightarrow> (string \<times> pyval) list" where
  "subject_predicate predicate text =
     [(''field'', VStr ''Subject''), (''predicate'', VStr predicate), (''value'', VStr text)]"

text \<open>
  Records ten days old and two days old by the clock of the fixtures, a record of the
  same age as the first with a UTC offset in its date, and a condition over the date.
\<close>

definition old_email_fields :: "(string \<times> pyval) list" where
  "old_email_fields =
     [(''id'', VStr ''old_email''), (''subject'', VStr ''Old email''),
      (''received_date'', VStr ''2024-12-21T00:00:00'')]"

definition recent_email_fields :: "(string \<times> pyval) list" where
  "recent_email_fields =
     [(''id'', VStr ''recent_email''), (''subject'', VStr ''Recent email''),
      (''received_date'', VStr ''2024-12-29T00:00:00'')]"

definition fetched_email_fields :: "(string \<times> pyval) list" where
  "fetched_email_fields =
     [(''id'', VStr ''fetched_email''), (''subject'', VStr ''Fetched email''),
      (''received_date'', VStr ''2024-12-21T00:00:00+00:00'')]"

definition received_condition :: "string \<Rightarrow> string \<Rightarrow> (string \<times> pyval) list" where
  "received_condition predicate text =
     [(''field'', VStr ''Received''), (''predicate'', VStr predicate), (''value'', VStr text)]"

section \<open>Decimal digits\<close>

lemma digit_char_inj:
  assumes "a < 10" "b < 10" "digit_char a = digit_char b"
  shows "a = b"
proof -
  from assms(3) have "of_char (char_of (48 + a)) = (of_char (char_of (48 + b)) :: nat)"
    by (simp add: digit_char_def)
  with assms(1,2) show ?thesis by simp
qed

lemma str_nat_small: "n < 10 \<Longrightarrow> str_nat n = [digit_char n]"
  by simp

lemma str_nat_big: "\<not> n < 10 \<Longrightarrow> str_nat n = str_nat (n div 10) @ [digit_char (n mod 10)]"
  by simp

declare str_nat.simps [simp del]

lemma str_nat_nonempty: "str_nat n \<noteq> []"
  by (cases "n < 10") (simp_all add: str_nat_small str_nat_big)

lemma str_nat_inj: "str_nat n = str_nat m \<Longrightarrow> n = m"
proof (induction n arbitrary: m rule: str_nat.induct)
  case (1 n)
  show ?case
  proof (cases "n < 10")
    case small: True
    show ?thesis
    proof (cases "m < 10")
      case True
      with small "1.prems" show ?thesis
        by (simp add: str_nat_small digit_char_inj)
    next
      case False
      with small "1.prems" str_nat_nonempty [of "m div 10"] show ?thesis
        by (simp add: str_nat_small str_nat_big)
    qed
  next
    case big: False
    show ?thesis
    proof (cases "m < 10")
      case True
      with big "1.prems" str_nat_nonempty [of "n div 10"] show ?thesis
        by (simp add: str_nat_small str_nat_big)
    next
      case False
      with big "1.prems" have eq: "str_nat (n div 10) = str_nat (m div 10)"
        and dg: "digit_char (n mod 10) = digit_char (m mod 10)"
        by (simp_all add: str_nat_big)
      from "1.IH" [OF big eq] have "n div 10 = m div 10" .
      moreover from dg have "n mod 10 = m mod 10"
        by (intro digit_char_inj) simp_all
      ultimately show ?thesis
        by (metis div_mult_mod_eq)
    qed
  qed
qed

lemma length_str_nat: "0 < k \<Longrightarrow> (length (str_nat n) \<le> k) = (n < 10 ^ k)"
proof (induction n arbitrary: k rule: str_nat.induct)
  case (1 n)
  show ?case
  proof (cases "n < 10")
    case True
    have "(10::nat) ^ 1 \<le> 10 ^ k"
      using "1.prems" by (intro power_increasing) simp_all
    with True "1.prems" show ?thesis
      by (simp add: str_nat_small)
  next
    case False
    show ?thesis
    proof (cases "k = 1")
      case True
      with False str_nat_nonempty [of "n div 10"] show ?thesis
        by (simp add: str_nat_big)
    next
      case k: False
      with "1.prems" obtain j where j: "k = Suc j" "0 < j"
        by (cases k) auto
      have "(length (str_nat (n div 10)) \<le> j) = (n div 10 < 10 ^ j)"
        using "1.IH" [OF False j(2)] .
      moreover have "(n div 10 < 10 ^ j) = (n < 10 ^ k)"
        using j(1) by (simp add: div_less_iff_less_mult mult.commute)
      ultimately show ?thesis
        using False j(1) by (simp add: str_nat_big)
    qed
  qed
qed

lemma str_int_nonempty: "str_int i \<noteq> []"
  by (simp add: str_int_def str_nat_nonempty)

lemma int_str_small: "\<bar>i\<bar> < 10 ^ MAX_STR_DIGITS \<Longrightarrow> int_str i = Inr (str_int i)"
proof -
  assume small: "\<bar>i\<bar> < 10 ^ MAX_STR_DIGITS"
  have pos: "0 < MAX_STR_DIGITS" by (simp add: MAX_STR_DIGITS_def)
  from small have "nat \<bar>i\<bar> < nat (10 ^ MAX_STR_DIGITS)" by (simp add: nat_less_eq_zless)
  then have "nat \<bar>i\<bar> < 10 ^ MAX_STR_DIGITS" by (simp only: nat_power_eq nat_numeral zero_le_numeral)
  with length_str_nat [OF pos, of "nat \<bar>i\<bar>"] show ?thesis
    by (simp only: int_str_def not_less [symmetric] if_False simp_thms)
qed

lemma int_str_huge: "10 ^ MAX_STR_DIGITS \<le> \<bar>i\<bar> \<Longrightarrow> int_str i = Inl ValueError"
proof -
  assume huge: "10 ^ MAX_STR_DIGITS \<le> \<bar>i\<bar>"
  have pos: "0 < MAX_STR_DIGITS" by (simp add: MAX_STR_DIGITS_def)
  from huge have "nat (10 ^ MAX_STR_DIGITS) \<le> nat \<bar>i\<bar>" by (rule nat_mono)
  then have "\<not> nat \<bar>i\<bar> < 10 ^ MAX_STR_DIGITS" by (simp only: nat_power_eq nat_numeral zero_le_numeral not_less)
  with length_str_nat [OF pos, of "nat \<bar>i\<bar>"] have "MAX_STR_DIGITS < length (str_nat (nat \<bar>i\<bar>))"
    by (simp only: not_le [symmetric] simp_thms)
  then show ?thesis by (simp only: int_str_def if_True)
qed

section \<open>Validation agrees with the specification\<close>

lemma bind_exc_Inl [simp]: "bind_exc (Inl e) f = Inl e"
  by (simp add: bind_exc_def)

lemma bind_exc_Inr [simp]: "bind_exc (Inr v) f = f v"
  by (simp add: bind_exc_def)

lemma except_false_Inl [simp]: "except_false (Inl e) = False"
  by (simp add: except_false_def)

lemma except_false_Inr [simp]: "except_false (Inr b) = b"
  by (simp add: except_false_def)

lemma all_pass_list_all: "all_pass f xs = list_all f xs"
  by (induction xs) auto

lemma in_strs_iff: "in_strs v lits = (\<exists>s. v = VStr s \<and> s \<in> set lits)"
  unfolding in_strs_def by (cases v) (auto simp: list_ex_iff)

lemma in_strs_VStr [simp]: "in_strs (VStr s) lits = (s \<in> set lits)"
  by (simp add: in_strs_iff)

lemma has_required_dict:
  "has_required ks (VDict d) = Inr (list_all (\<lambda>k. map_of d k \<noteq> None) ks)"
  by (induction ks) auto

lemma py_getitem_nondict: "\<forall>d. v \<noteq> VDict d \<Longrightarrow> py_getitem v k = Inl TypeError"
  by (cases v) auto

lemma guarded_getitem_nondict:
  assumes "\<forall>d. v \<noteq> VDict d"
  shows "except_false (bind_exc m (\<lambda>b. if \<not> b then Inr False else bind_exc (py_getitem v k) f)) = False"
  using py_getitem_nondict [OF assms] by (cases m) auto

lemma validate_condition_nondict: "\<forall>d. c \<noteq> VDict d \<Longrightarrow> validate_condition c = False"
  unfolding validate_condition_def validate_condition_body_def
  by (rule guarded_getitem_nondict)

lemma validate_action_nondict: "\<forall>d. a \<noteq> VDict d \<Longrightarrow> validate_action a = False"
  unfolding validate_action_def validate_action_body_def
  by (rule guarded_getitem_nondict)

lemma validate_rule_nondict: "\<forall>d. r \<noteq> VDict d \<Longrightarrow> validate_rule r = False"
  unfolding validate_rule_def validate_rule_body_def
  by (rule guarded_getitem_nondict)

lemma in_field_mapping_VStr: "in_field_mapping (VStr f) = Inr (f \<in> set FIELD_NAMES)"
  by (simp add: in_field_mapping_def FIELD_MAPPING_def FIELD_NAMES_def)

lemma in_field_mapping_other:
  "\<forall>s. v \<noteq> VStr s \<Longrightarrow> except_false (bind_exc (in_field_mapping v) (\<lambda>known. if \<not> known then Inr False else g known)) = False"
  by (cases v) (auto simp: in_field_mapping_def)


lemma in_strs_other [simp]: "\<forall>s. v \<noteq> VStr s \<Longrightarrow> in_strs v lits = False"
  by (simp add: in_strs_iff)

lemma str_eq_iff: "str_eq v t = (v = VStr t)"
  by (cases v) auto

lemma validate_condition_dict: "validate_condition (VDict d) = spec_valid_condition (VDict d)"
proof (cases "map_of d ''field''")
  case None
  then show ?thesis
    by (simp add: validate_condition_def validate_condition_body_def spec_valid_condition_def
        has_required_dict)
next
  case field: (Some f)
  show ?thesis
  proof (cases "map_of d ''predicate''")
    case None
    with field show ?thesis
      by (simp add: validate_condition_def validate_condition_body_def spec_valid_condition_def
          has_required_dict split: pyval.splits)
  next
    case predicate: (Some p)
    show ?thesis
    proof (cases "map_of d ''value''")
      case None
      with field predicate show ?thesis
        by (simp add: validate_condition_def validate_condition_body_def spec_valid_condition_def
            has_required_dict split: pyval.splits)
    next
      case val: (Some v)
      show ?thesis
      proof (cases "\<exists>s. f = VStr s")
        case False
        then have nf: "\<forall>s. f \<noteq> VStr s" by simp
        have "spec_valid_condition (VDict d) = False"
          using field predicate val nf
          by (cases f) (simp_all add: spec_valid_condition_def)
        moreover have "validate_condition (VDict d) = False"
          using field predicate val in_field_mapping_other [OF nf]
          by (simp add: validate_condition_def validate_condition_body_def has_required_dict)
        ultimately show ?thesis by simp
      next
        case True
        then obtain s where s: "f = VStr s" by blast
        show ?thesis
        proof (cases "\<exists>t. p = VStr t")
          case False
          then have np: "\<forall>t. p \<noteq> VStr t" by simp
          have "spec_valid_condition (VDict d) = False"
            using field predicate val np s
            by (cases p) (simp_all add: spec_valid_condition_def)
          moreover have "validate_condition (VDict d) = False"
            using field predicate val s np
            by (simp add: validate_condition_def validate_condition_body_def has_required_dict
                in_field_mapping_VStr)
          ultimately show ?thesis by simp
        next
          case True
          then obtain t where t: "p = VStr t" by blast
          show ?thesis
            using field predicate val s t
            by (simp add: validate_condition_def validate_condition_body_def has_required_dict
                in_field_mapping_VStr spec_valid_condition_def)
        qed
      qed
    qed
  qed
qed

lemma validate_condition_spec: "validate_condition c = spec_valid_condition c"
proof (cases "\<exists>d. c = VDict d")
  case True
  then show ?thesis by (auto simp: validate_condition_dict)
next
  case False
  then have "validate_condition c = False" by (simp add: validate_condition_nondict)
  moreover from False have "spec_valid_condition c = False"
    by (cases c) (simp_all add: spec_valid_condition_def)
  ultimately show ?thesis by simp
qed


lemma py_in_dict: "py_in k (VDict d) = Inr (map_of d k \<noteq> None)"
  by simp

lemma validate_action_dict: "validate_action (VDict d) = spec_valid_action (VDict d)"
proof (cases "map_of d ''type''")
  case None
  then show ?thesis
    by (simp add: validate_action_def validate_action_body_def spec_valid_action_def)
next
  case ty: (Some ty)
  show ?thesis
  proof (cases "\<exists>s. ty = VStr s")
    case False
    then have nt: "\<forall>s. ty \<noteq> VStr s" by simp
    have "spec_valid_action (VDict d) = False"
      using ty nt by (cases ty) (simp_all add: spec_valid_action_def)
    moreover have "validate_action (VDict d) = False"
      using ty nt by (simp add: validate_action_def validate_action_body_def)
    ultimately show ?thesis by simp
  next
    case True
    then obtain s where s: "ty = VStr s" by blast
    consider (rd) "s = ''mark_read''" | (un) "s = ''mark_unread''" | (mv) "s = ''move_message''"
      | (no) "s \<notin> set ACTIONS"
      by (auto simp: ACTIONS_def)
    then show ?thesis
    proof cases
      case rd
      show ?thesis
      proof (cases "map_of d ''value''")
        case None
        with ty s rd show ?thesis
          by (simp add: validate_action_def validate_action_body_def spec_valid_action_def ACTIONS_def)
      next
        case (Some v)
        with ty s rd show ?thesis
          by (cases v)
             (simp_all add: validate_action_def validate_action_body_def spec_valid_action_def ACTIONS_def)
      qed
    next
      case un
      with ty s show ?thesis
        by (simp add: validate_action_def validate_action_body_def spec_valid_action_def ACTIONS_def)
    next
      case mv
      show ?thesis
      proof (cases "map_of d ''value''")
        case None
        with ty s mv show ?thesis
          by (simp add: validate_action_def validate_action_body_def spec_valid_action_def ACTIONS_def)
      next
        case (Some v)
        with ty s mv show ?thesis
          by (cases v)
             (simp_all add: validate_action_def validate_action_body_def spec_valid_action_def ACTIONS_def)
      qed
    next
      case no
      then have "s \<noteq> ''mark_read''" "s \<noteq> ''move_message''" "s \<noteq> ''mark_unread''"
        by (auto simp: ACTIONS_def)
      with ty s no show ?thesis
        by (simp add: validate_action_def validate_action_body_def spec_valid_action_def)
    qed
  qed
qed

lemma validate_action_spec: "validate_action a = spec_valid_action a"
proof (cases "\<exists>d. a = VDict d")
  case True
  then show ?thesis by (auto simp: validate_action_dict)
next
  case False
  then have "validate_action a = False" by (simp add: validate_action_nondict)
  moreover from False have "spec_valid_action a = False"
    by (cases a) (simp_all add: spec_valid_action_def)
  ultimately show ?thesis by simp
qed

lemma all_pass_cong: "(\<And>x. f x = g x) \<Longrightarrow> all_pass f xs = list_all g xs"
  by (induction xs) auto

lemma validate_rule_dict: "validate_rule (VDict d) = spec_valid_rule (VDict d)"
proof (cases "map_of d ''predicate''")
  case None
  then show ?thesis
    by (simp add: validate_rule_def validate_rule_body_def spec_valid_rule_def has_required_dict)
next
  case predicate: (Some p)
  show ?thesis
  proof (cases "map_of d ''conditions''")
    case None
    with predicate show ?thesis
      by (simp add: validate_rule_def validate_rule_body_def spec_valid_rule_def has_required_dict
          split: pyval.splits)
  next
    case conditions: (Some cs)
    show ?thesis
    proof (cases "map_of d ''actions''")
      case None
      with predicate conditions show ?thesis
        by (simp add: validate_rule_def validate_rule_body_def spec_valid_rule_def has_required_dict
            split: pyval.splits)
    next
      case actions: (Some acts)
      show ?thesis
      proof (cases "\<exists>s. p = VStr s")
        case False
        then have np: "\<forall>s. p \<noteq> VStr s" by simp
        have "spec_valid_rule (VDict d) = False"
          using predicate conditions actions np
          by (cases p) (simp_all add: spec_valid_rule_def)
        moreover have "validate_rule (VDict d) = False"
          using predicate conditions actions np
          by (simp add: validate_rule_def validate_rule_body_def has_required_dict)
        ultimately show ?thesis by simp
      next
        case True
        then obtain s where s: "p = VStr s" by blast
        have cond: "all_pass validate_condition xs = list_all spec_valid_condition xs" for xs
          by (rule all_pass_cong) (rule validate_condition_spec)
        have act: "all_pass validate_action xs = list_all spec_valid_action xs" for xs
          by (rule all_pass_cong) (rule validate_action_spec)
        show ?thesis
          using predicate conditions actions s
          by (cases cs; cases acts)
             (simp_all add: validate_rule_def validate_rule_body_def has_required_dict
                spec_valid_rule_def cond act)
      qed
    qed
  qed
qed

lemma validate_rule_spec: "validate_rule r = spec_valid_rule r"
proof (cases "\<exists>d. r = VDict d")
  case True
  then show ?thesis by (auto simp: validate_rule_dict)
next
  case False
  then have "validate_rule r = False" by (simp add: validate_rule_nondict)
  moreover from False have "spec_valid_rule r = False"
    by (cases r) (simp_all add: spec_valid_rule_def)
  ultimately show ?thesis by simp
qed



section \<open>Loading keeps exactly the valid rules\<close>

lemma valid_rules_loop_filter: "valid_rules_loop rs acc = acc @ filter validate_rule rs"
  by (induction rs arbitrary: acc) auto

lemma filter_validate_rule: "filter validate_rule rs = filter spec_valid_rule rs"
  by (rule filter_cong) (simp_all add: validate_rule_spec)

lemma load_rules_list:
  "read_json (rules_file self) = Inr (VList doc) \<Longrightarrow>
   load_rules read_json self = Inr (self\<lparr>rules := filter spec_valid_rule doc\<rparr>)"
  by (simp add: load_rules_def valid_rules_loop_filter filter_validate_rule)

lemma load_rules_dict:
  "read_json (rules_file self) = Inr (VDict d) \<Longrightarrow>
   load_rules read_json self = Inr (self\<lparr>rules := filter spec_valid_rule [VDict d]\<rparr>)"
  by (simp add: load_rules_def valid_rules_loop_filter filter_validate_rule del: filter.simps)

text \<open>
  Claim C1. A candidate rule passes \<^verbatim>\<open>_validate_rule\<close> if and only if it is structurally
  valid in the specification's sense, for every value whatsoever (a candidate that is no
  object fails both). Hence loading a document that is a list of candidates stores the
  sublist of its valid rules, in document order and each rule as it stood in the document;
  a document that is a single object is treated as the list of that one candidate.
\<close>

theorem loaded_rules_are_the_valid_rules:
  "validate_rule r = spec_valid_rule r \<and>
   (read_json (rules_file self) = Inr (VList doc) \<longrightarrow>
      load_rules read_json self = Inr (self\<lparr>rules := filter spec_valid_rule doc\<rparr>)) \<and>
   (read_json (rules_file self) = Inr (VDict d) \<longrightarrow>
      load_rules read_json self = Inr (self\<lparr>rules := filter spec_valid_rule [VDict d]\<rparr>))"
  using validate_rule_spec load_rules_list load_rules_dict by blast

text \<open>
  On the fixture of the test suite: the rule of \<^verbatim>\<open>temp_rules_file\<close> is kept, the rule
  of \<^verbatim>\<open>test_validate_rule_missing_fields\<close> is dropped.
\<close>

lemma spec_valid_rule_fixture: "spec_valid_rule valid_rule_fixture"
  by (simp add: spec_valid_rule_def spec_valid_condition_def spec_valid_action_def
      valid_rule_fixture_def valid_rule_fields_def FIELD_NAMES_def STRING_PREDICATES_def)

lemma spec_invalid_rule_fixture: "\<not> spec_valid_rule invalid_rule_fixture"
  by (simp add: spec_valid_rule_def invalid_rule_fixture_def)

theorem loaded_rules_are_the_valid_rules_witness:
  "validate_rule valid_rule_fixture \<and> \<not> validate_rule invalid_rule_fixture \<and>
   load_rules fixture_source fresh_engine = Inr (fresh_engine\<lparr>rules := [valid_rule_fixture]\<rparr>)"
proof -
  have src: "fixture_source (rules_file fresh_engine) = Inr (VList [invalid_rule_fixture, valid_rule_fixture])"
    by (simp add: fixture_source_def)
  from loaded_rules_are_the_valid_rules
    [of valid_rule_fixture fixture_source fresh_engine "[invalid_rule_fixture, valid_rule_fixture]"]
    loaded_rules_are_the_valid_rules [of invalid_rule_fixture fixture_source fresh_engine "[]"]
    src spec_valid_rule_fixture spec_invalid_rule_fixture
  show ?thesis by simp
qed

section \<open>Rule evaluation\<close>

lemma results_loop_map:
  "results_loop rt email cs acc = acc @ map (\<lambda>c. evaluate_condition rt c email) cs"
  by (induction cs arbitrary: acc) auto

lemma py_all_map: "py_all (map f xs) = list_all f xs"
  by (induction xs) auto

lemma py_any_map: "py_any (map f xs) = list_ex f xs"
  by (induction xs) auto

lemma evaluate_rule_list:
  assumes "map_of d ''predicate'' = Some p" and "map_of d ''conditions'' = Some (VList cs)"
  shows "evaluate_rule rt (VDict d) email =
     (if cs = [] then False
      else if p = VStr ''All'' then list_all (\<lambda>c. evaluate_condition rt c email) cs
      else if p = VStr ''Any'' then list_ex (\<lambda>c. evaluate_condition rt c email) cs
      else False)"
  using assms
  by (simp add: evaluate_rule_def evaluate_rule_body_def results_loop_map py_all_map py_any_map
      str_eq_iff Let_def)

text \<open>
  Claim C2. For a rule with a combinator \<open>p\<close> and a list \<open>cs\<close> of conditions,
  \<^verbatim>\<open>evaluate_rule\<close> is false when the list is empty, whatever the combinator; on a
  non-empty list it is the conjunction of the conditions' evaluations for
  \<^verbatim>\<open>'All'\<close> and their disjunction for \<^verbatim>\<open>'Any'\<close>; for any other combinator it is
  false.
\<close>

theorem evaluate_rule_combines_conditions:
  assumes "map_of d ''predicate'' = Some p" and "map_of d ''conditions'' = Some (VList cs)"
  shows "(cs = [] \<longrightarrow> \<not> evaluate_rule rt (VDict d) email) \<and>
         (cs \<noteq> [] \<and> p = VStr ''All'' \<longrightarrow>
            evaluate_rule rt (VDict d) email = list_all (\<lambda>c. evaluate_condition rt c email) cs) \<and>
         (cs \<noteq> [] \<and> p = VStr ''Any'' \<longrightarrow>
            evaluate_rule rt (VDict d) email = list_ex (\<lambda>c. evaluate_condition rt c email) cs) \<and>
         (p \<noteq> VStr ''All'' \<and> p \<noteq> VStr ''Any'' \<longrightarrow> \<not> evaluate_rule rt (VDict d) email)"
  using evaluate_rule_list [OF assms, of rt email] by simp

text \<open>
  On the record and the rule of \<^verbatim>\<open>test_evaluate_rule_any_predicate\<close>, where the second
  condition alone holds, and on the rule of \<^verbatim>\<open>test_evaluate_rule_no_conditions\<close>.
\<close>

lemma any_first: "\<not> evaluate_condition test_runtime
    (VDict [(''field'', VStr ''From''), (''predicate'', VStr ''Contains''), (''value'', VStr ''nonexistent'')]) sample_email"
  by code_simp

lemma any_second: "evaluate_condition test_runtime
    (VDict [(''field'', VStr ''Subject''), (''predicate'', VStr ''Contains''), (''value'', VStr ''important'')]) sample_email"
  by code_simp

theorem evaluate_rule_combines_conditions_witness:
  "evaluate_rule test_runtime any_rule_fixture sample_email \<and>
   \<not> evaluate_rule test_runtime
       (VDict [(''predicate'', VStr ''All''), (''conditions'', VList []), (''actions'', VList [])])
       sample_email"
  using evaluate_rule_combines_conditions
      [where d = "[(''predicate'', VStr ''Any''),
            (''conditions'',
               VList [VDict [(''field'', VStr ''From''), (''predicate'', VStr ''Contains''),
                             (''value'', VStr ''nonexistent'')],
                      VDict [(''field'', VStr ''Subject''), (''predicate'', VStr ''Contains''),
                             (''value'', VStr ''important'')]]),
            (''actions'', VList [])]"
        and p = "VStr ''Any''"
        and cs = "[VDict [(''field'', VStr ''From''), (''predicate'', VStr ''Contains''),
                             (''value'', VStr ''nonexistent'')],
                      VDict [(''field'', VStr ''Subject''), (''predicate'', VStr ''Contains''),
                             (''value'', VStr ''important'')]]"
        and rt = test_runtime and email = sample_email]
    evaluate_rule_combines_conditions
      [where d = "[(''predicate'', VStr ''All''), (''conditions'', VList []), (''actions'', VList [])]"
        and p = "VStr ''All''" and cs = "[]" and rt = test_runtime and email = sample_email]
    any_first any_second
  by (simp add: any_rule_fixture_def)

section \<open>String conditions\<close>

lemma map_of_dict_set: "map_of (dict_set d k v) k' = (if k' = k then Some v else map_of d k')"
  by (induction d) auto

lemma text_field_column:
  "f \<in> set TEXT_FIELDS \<Longrightarrow> \<exists>col. map_of FIELD_MAPPING f = Some col \<and> col \<noteq> [] \<and> f \<noteq> ''Received''"
  by (auto simp: TEXT_FIELDS_def FIELD_MAPPING_def)

text \<open>A condition over a text field goes to \<^verbatim>\<open>_check_string_condition\<close>, with the value
  of the record's column, or the empty string when the record has no such key.\<close>

lemma evaluate_condition_text:
  assumes "map_of c ''field'' = Some (VStr f)" and "f \<in> set TEXT_FIELDS"
    and "map_of c ''predicate'' = Some p" and "map_of c ''value'' = Some v"
    and "map_of FIELD_MAPPING f = Some col"
  shows "evaluate_condition rt (VDict c) (VDict e) =
         check_string_condition rt (dict_get e col (VStr [])) p v"
proof -
  from text_field_column [OF assms(2)] assms(5) have "col \<noteq> []" "f \<noteq> ''Received''" by auto
  with assms show ?thesis
    by (simp add: evaluate_condition_def evaluate_condition_body_def)
qed

lemma check_string_condition_texts:
  assumes "py_str rt x = Inr a" and "py_str rt w = Inr b"
  shows "check_string_condition rt x p w =
         (if p = VStr ''Contains'' then str_contains (py_lower a) (py_lower b)
          else if p = VStr ''Does not Contain'' then \<not> str_contains (py_lower a) (py_lower b)
          else if p = VStr ''Equals'' then py_lower a = py_lower b
          else if p = VStr ''Does not equal'' then py_lower a \<noteq> py_lower b
          else False)"
  using assms
  by (simp add: check_string_condition_def check_string_condition_body_def str_eq_iff Let_def)

lemma check_string_condition_raises:
  assumes "(\<forall>a. py_str rt x \<noteq> Inr a) \<or> (\<forall>b. py_str rt w \<noteq> Inr b)"
  shows "\<not> check_string_condition rt x p w"
proof (cases "py_str rt x")
  case (Inl e)
  then show ?thesis
    by (simp add: check_string_condition_def check_string_condition_body_def)
next
  case x: (Inr a)
  with assms have "\<forall>b. py_str rt w \<noteq> Inr b" by simp
  then obtain e where "py_str rt w = Inl e" by (cases "py_str rt w") auto
  with x show ?thesis
    by (simp add: check_string_condition_def check_string_condition_body_def)
qed




lemma starts_with_iff: "starts_with s p = (\<exists>q. s = p @ q)"
  by (induction s p rule: starts_with.induct) auto

lemma str_contains_iff: "str_contains s sub = (\<exists>p q. s = p @ sub @ q)"
proof (induction s)
  case Nil
  then show ?case by simp
next
  case (Cons c cs)
  show ?case
  proof
    assume "str_contains (c # cs) sub"
    then consider "starts_with (c # cs) sub" | "str_contains cs sub" by auto
    then show "\<exists>p q. c # cs = p @ sub @ q"
    proof cases
      case 1
      then obtain q where "c # cs = sub @ q" by (auto simp: starts_with_iff)
      then have "c # cs = [] @ sub @ q" by simp
      then show ?thesis by blast
    next
      case 2
      with Cons.IH obtain p q where "cs = p @ sub @ q" by auto
      then have "c # cs = (c # p) @ sub @ q" by simp
      then show ?thesis by blast
    qed
  next
    assume "\<exists>p q. c # cs = p @ sub @ q"
    then obtain p q where pq: "c # cs = p @ sub @ q" by blast
    show "str_contains (c # cs) sub"
    proof (cases p)
      case Nil
      with pq have "starts_with (c # cs) sub" by (auto simp: starts_with_iff)
      then show ?thesis by simp
    next
      case (Cons a p')
      with pq have "cs = p' @ sub @ q" by simp
      with Cons.IH have "str_contains cs sub" by blast
      then show ?thesis by simp
    qed
  qed
qed

lemma huge_int_raises: "py_str rt (VInt huge_int) = Inl ValueError"
proof -
  have "(10::int) ^ MAX_STR_DIGITS \<le> \<bar>10 ^ MAX_STR_DIGITS\<bar>" by simp
  then have "int_str huge_int = Inl ValueError"
    unfolding huge_int_def by (rule int_str_huge)
  then show ?thesis by simp
qed
















lemma py_repr_nonempty:
  assumes "\<forall>w. float_repr rt w \<noteq> []" and "\<forall>d. datetime_repr rt d \<noteq> []"
    and "py_repr rt depth x = Inr t"
  shows "t \<noteq> []"
proof (cases x)
  case (VInt i)
  with assms(3) show ?thesis
    by (auto simp: int_str_def str_int_nonempty split: if_splits)
next
  case (VList xs)
  with assms(3) show ?thesis
    by (cases depth) (auto simp: bind_exc_def split: sum.splits)
next
  case (VDict d)
  with assms(3) show ?thesis
    by (cases depth) (auto simp: bind_exc_def split: sum.splits)
next
  case (VStr s)
  with assms(3) show ?thesis by (auto simp: str_repr_def Let_def)
qed (use assms in \<open>auto split: if_splits\<close>)

lemma py_str_nonempty:
  assumes "\<forall>w. float_repr rt w \<noteq> []" and "\<forall>d. datetime_repr rt d \<noteq> []"
    and "\<forall>d. datetime_str rt d \<noteq> []"
    and "\<forall>s. x \<noteq> VStr s" and "py_str rt x = Inr t"
  shows "t \<noteq> []"
proof (cases x)
  case (VStr s)
  with assms(4) show ?thesis by simp
next
  case (VDatetime d)
  with assms(3,5) show ?thesis by auto
qed (use assms py_repr_nonempty [of rt "repr_depth rt" x t] in auto)

lemma py_str_list_brackets:
  assumes "py_str rt (VList xs) = Inr t"
  shows "\<exists>body. t = ''['' @ body @ '']''"
  using assms by (cases "repr_depth rt") (auto simp: bind_exc_def split: sum.splits)

lemma py_str_dict_braces:
  assumes "py_str rt (VDict d) = Inr t"
  shows "\<exists>body. t = ''{'' @ body @ ''}''"
  using assms by (cases "repr_depth rt") (auto simp: bind_exc_def split: sum.splits)

text \<open>
  Claim C10, as amended. A condition over a text field takes the value of the record's
  column, or the empty string only when the record has no such key, and the condition's
  value; converts both with \<^verbatim>\<open>str\<close>; lowers both texts; and compares them. A value that
  is present and no string is compared by the text \<^verbatim>\<open>str\<close> prints for it: \<^verbatim>\<open>None\<close>,
  \<^verbatim>\<open>True\<close> or \<^verbatim>\<open>False\<close>, the decimal digits of an integer below ten to the 4300, the
  \<^verbatim>\<open>repr\<close> of a float, a list between brackets, a dictionary between braces; that text
  is never empty (given that the texts of floats and datetimes, which the model takes
  from outside, are not). Where \<^verbatim>\<open>str\<close> raises for one of the operands, the condition
  is false.
\<close>

theorem string_conditions_compare_textual_forms:
  assumes "map_of c ''field'' = Some (VStr f)" and "f \<in> set TEXT_FIELDS"
    and "map_of c ''predicate'' = Some p" and "map_of c ''value'' = Some v"
    and "map_of FIELD_MAPPING f = Some col"
  shows "(map_of e col = Some x \<and> py_str rt x = Inr a \<and> py_str rt v = Inr b \<longrightarrow>
            evaluate_condition rt (VDict c) (VDict e) =
            (if p = VStr ''Contains'' then str_contains (py_lower a) (py_lower b)
             else if p = VStr ''Does not Contain'' then \<not> str_contains (py_lower a) (py_lower b)
             else if p = VStr ''Equals'' then py_lower a = py_lower b
             else if p = VStr ''Does not equal'' then py_lower a \<noteq> py_lower b
             else False)) \<and>
         (map_of e col = None \<and> py_str rt v = Inr b \<longrightarrow>
            evaluate_condition rt (VDict c) (VDict e) =
            (if p = VStr ''Contains'' then str_contains [] (py_lower b)
             else if p = VStr ''Does not Contain'' then \<not> str_contains [] (py_lower b)
             else if p = VStr ''Equals'' then [] = py_lower b
             else if p = VStr ''Does not equal'' then [] \<noteq> py_lower b
             else False)) \<and>
         (map_of e col = Some x \<and> (\<forall>a. py_str rt x \<noteq> Inr a) \<longrightarrow>
            \<not> evaluate_condition rt (VDict c) (VDict e)) \<and>
         ((\<forall>b. py_str rt v \<noteq> Inr b) \<longrightarrow> \<not> evaluate_condition rt (VDict c) (VDict e)) \<and>
         py_str rt VNone = Inr ''None'' \<and> py_lower ''None'' = ''none'' \<and>
         py_str rt (VBool True) = Inr ''True'' \<and> py_str rt (VBool False) = Inr ''False'' \<and>
         (\<bar>i\<bar> < 10 ^ MAX_STR_DIGITS \<longrightarrow> py_str rt (VInt i) = Inr (str_int i)) \<and>
         (10 ^ MAX_STR_DIGITS \<le> \<bar>i\<bar> \<longrightarrow> py_str rt (VInt i) = Inl ValueError) \<and>
         py_str rt (VStr s) = Inr s \<and>
         py_str rt (VFloat w) = Inr (float_repr rt w) \<and>
         py_str rt (VDatetime d) = Inr (datetime_str rt d) \<and>
         (py_str rt (VList xs) = Inr t \<longrightarrow> (\<exists>body. t = ''['' @ body @ '']'')) \<and>
         (py_str rt (VDict kvs) = Inr t \<longrightarrow> (\<exists>body. t = ''{'' @ body @ ''}'')) \<and>
         ((\<forall>w. float_repr rt w \<noteq> []) \<and> (\<forall>d. datetime_repr rt d \<noteq> []) \<and>
          (\<forall>d. datetime_str rt d \<noteq> []) \<and> (\<forall>s. y \<noteq> VStr s) \<and> py_str rt y = Inr t' \<longrightarrow>
            t' \<noteq> [])"
proof -
  have ev: "evaluate_condition rt (VDict c) (VDict e) =
        check_string_condition rt (dict_get e col (VStr [])) p v"
    using assms by (rule evaluate_condition_text)
  have present: "map_of e col = Some x \<and> py_str rt x = Inr a \<and> py_str rt v = Inr b \<longrightarrow>
            evaluate_condition rt (VDict c) (VDict e) =
            (if p = VStr ''Contains'' then str_contains (py_lower a) (py_lower b)
             else if p = VStr ''Does not Contain'' then \<not> str_contains (py_lower a) (py_lower b)
             else if p = VStr ''Equals'' then py_lower a = py_lower b
             else if p = VStr ''Does not equal'' then py_lower a \<noteq> py_lower b
             else False)"
  proof (intro impI, elim conjE)
    assume h: "map_of e col = Some x" "py_str rt x = Inr a" "py_str rt v = Inr b"
    from h(1) have "dict_get e col (VStr []) = x" by (simp add: dict_get_def)
    with ev check_string_condition_texts [OF h(2,3), of p]
    show "evaluate_condition rt (VDict c) (VDict e) =
            (if p = VStr ''Contains'' then str_contains (py_lower a) (py_lower b)
             else if p = VStr ''Does not Contain'' then \<not> str_contains (py_lower a) (py_lower b)
             else if p = VStr ''Equals'' then py_lower a = py_lower b
             else if p = VStr ''Does not equal'' then py_lower a \<noteq> py_lower b
             else False)"
      by simp
  qed
  have absent: "map_of e col = None \<and> py_str rt v = Inr b \<longrightarrow>
            evaluate_condition rt (VDict c) (VDict e) =
            (if p = VStr ''Contains'' then str_contains [] (py_lower b)
             else if p = VStr ''Does not Contain'' then \<not> str_contains [] (py_lower b)
             else if p = VStr ''Equals'' then [] = py_lower b
             else if p = VStr ''Does not equal'' then [] \<noteq> py_lower b
             else False)"
  proof (intro impI, elim conjE)
    assume h: "map_of e col = None" "py_str rt v = Inr b"
    from h(1) have g: "dict_get e col (VStr []) = VStr []" by (simp add: dict_get_def)
    have "py_str rt (VStr []) = Inr []" by simp
    from check_string_condition_texts [OF this h(2), of p] ev g
    show "evaluate_condition rt (VDict c) (VDict e) =
            (if p = VStr ''Contains'' then str_contains [] (py_lower b)
             else if p = VStr ''Does not Contain'' then \<not> str_contains [] (py_lower b)
             else if p = VStr ''Equals'' then [] = py_lower b
             else if p = VStr ''Does not equal'' then [] \<noteq> py_lower b
             else False)"
      by (simp add: py_lower_def)
  qed
  have raises_field: "map_of e col = Some x \<and> (\<forall>a. py_str rt x \<noteq> Inr a) \<longrightarrow>
            \<not> evaluate_condition rt (VDict c) (VDict e)"
  proof (intro impI, elim conjE)
    assume h: "map_of e col = Some x" "\<forall>a. py_str rt x \<noteq> Inr a"
    from h(1) have "dict_get e col (VStr []) = x" by (simp add: dict_get_def)
    with ev h(2) show "\<not> evaluate_condition rt (VDict c) (VDict e)"
      by (simp add: check_string_condition_raises)
  qed
  have raises_value: "(\<forall>b. py_str rt v \<noteq> Inr b) \<longrightarrow> \<not> evaluate_condition rt (VDict c) (VDict e)"
    using ev by (simp add: check_string_condition_raises)
  have none: "py_lower ''None'' = ''none''"
    by code_simp
  have texts: "py_str rt VNone = Inr ''None''" "py_str rt (VBool True) = Inr ''True''"
    "py_str rt (VBool False) = Inr ''False''" "py_str rt (VStr s) = Inr s"
    "py_str rt (VFloat w) = Inr (float_repr rt w)" "py_str rt (VDatetime d) = Inr (datetime_str rt d)"
    by simp_all
  have small: "\<bar>i\<bar> < 10 ^ MAX_STR_DIGITS \<longrightarrow> py_str rt (VInt i) = Inr (str_int i)"
    using int_str_small [of i] by simp
  have huge: "10 ^ MAX_STR_DIGITS \<le> \<bar>i\<bar> \<longrightarrow> py_str rt (VInt i) = Inl ValueError"
    using int_str_huge [of i] by simp
  have brackets: "py_str rt (VList xs) = Inr t \<longrightarrow> (\<exists>body. t = ''['' @ body @ '']'')"
    using py_str_list_brackets by blast
  have braces: "py_str rt (VDict kvs) = Inr t \<longrightarrow> (\<exists>body. t = ''{'' @ body @ ''}'')"
    using py_str_dict_braces by blast
  have nonempty: "(\<forall>w. float_repr rt w \<noteq> []) \<and> (\<forall>d. datetime_repr rt d \<noteq> []) \<and>
          (\<forall>d. datetime_str rt d \<noteq> []) \<and> (\<forall>s. y \<noteq> VStr s) \<and> py_str rt y = Inr t' \<longrightarrow>
            t' \<noteq> []"
    using py_str_nonempty [of rt y t'] by blast
  from present absent raises_field raises_value none texts small huge brackets braces nonempty
  show ?thesis by (intro conjI)
qed

text \<open>
  On records whose subject is null, absent, the number 42, the truth value True and a
  list: null compares as the text none and not as the empty text, the absent subject as
  the empty text, the number by its digits, the truth value by its name, and the list by
  its printed form.
\<close>

lemma subject_texts:
  "py_str test_runtime VNone = Inr ''None'' \<and>
   py_str test_runtime (VInt 42) = Inr ''42'' \<and>
   py_str test_runtime (VBool True) = Inr ''True'' \<and>
   py_str test_runtime (VList [VStr ''INBOX'', VInt 1, VNone]) =
     Inr (''['' @ [CHR 0x27] @ ''INBOX'' @ [CHR 0x27] @ '', 1, None]'')"
  by code_simp

lemma none_is_none: "py_lower ''None'' = py_lower ''none''"
  by code_simp

lemma none_is_not_empty: "py_lower ''None'' \<noteq> py_lower []"
  by code_simp

lemma true_is_true: "py_lower ''True'' = py_lower ''TRUE''"
  by code_simp

lemma labels_contain_inbox:
  "str_contains (py_lower (''['' @ [CHR 0x27] @ ''INBOX'' @ [CHR 0x27] @ '', 1, None]''))
     (py_lower ''inbox'')"
  by code_simp

lemma py_lower_Nil: "py_lower [] = []"
  by (simp add: py_lower_def)

theorem string_conditions_compare_textual_forms_witness:
  "evaluate_condition test_runtime (VDict (subject_predicate ''Equals'' ''none'')) (VDict null_subject_fields) \<and>
   \<not> evaluate_condition test_runtime (VDict (subject_predicate ''Equals'' [])) (VDict null_subject_fields) \<and>
   evaluate_condition test_runtime (VDict (subject_predicate ''Equals'' [])) (VDict no_subject_fields) \<and>
   evaluate_condition test_runtime (VDict (subject_predicate ''Equals'' ''42'')) (VDict number_subject_fields) \<and>
   evaluate_condition test_runtime (VDict (subject_predicate ''Equals'' ''TRUE'')) (VDict flag_subject_fields) \<and>
   evaluate_condition test_runtime (VDict (subject_predicate ''Contains'' ''inbox'')) (VDict labels_subject_fields)"
proof -
  note defs = subject_predicate_def TEXT_FIELDS_def FIELD_MAPPING_def
  have null_none: "evaluate_condition test_runtime (VDict (subject_predicate ''Equals'' ''none''))
      (VDict null_subject_fields)"
    using string_conditions_compare_textual_forms
      [where c = "subject_predicate ''Equals'' ''none''" and f = "''Subject''" and p = "VStr ''Equals''"
         and v = "VStr ''none''" and col = "''subject''" and e = null_subject_fields and x = VNone
         and a = "''None''" and b = "''none''" and rt = test_runtime, THEN conjunct1]
      subject_texts none_is_none
    by (simp add: defs null_subject_fields_def)
  have null_empty: "\<not> evaluate_condition test_runtime (VDict (subject_predicate ''Equals'' []))
      (VDict null_subject_fields)"
    using string_conditions_compare_textual_forms
      [where c = "subject_predicate ''Equals'' []" and f = "''Subject''" and p = "VStr ''Equals''"
         and v = "VStr []" and col = "''subject''" and e = null_subject_fields and x = VNone
         and a = "''None''" and b = "[]" and rt = test_runtime, THEN conjunct1]
      subject_texts none_is_not_empty
    by (simp add: defs null_subject_fields_def)
  have absent_empty: "evaluate_condition test_runtime (VDict (subject_predicate ''Equals'' []))
      (VDict no_subject_fields)"
    using string_conditions_compare_textual_forms
      [where c = "subject_predicate ''Equals'' []" and f = "''Subject''" and p = "VStr ''Equals''"
         and v = "VStr []" and col = "''subject''" and e = no_subject_fields
         and b = "[]" and rt = test_runtime, THEN conjunct2, THEN conjunct1]
      py_lower_Nil
    by (simp add: defs no_subject_fields_def)
  have number: "evaluate_condition test_runtime (VDict (subject_predicate ''Equals'' ''42''))
      (VDict number_subject_fields)"
    using string_conditions_compare_textual_forms
      [where c = "subject_predicate ''Equals'' ''42''" and f = "''Subject''" and p = "VStr ''Equals''"
         and v = "VStr ''42''" and col = "''subject''" and e = number_subject_fields and x = "VInt 42"
         and a = "''42''" and b = "''42''" and rt = test_runtime, THEN conjunct1]
      subject_texts
    by (simp add: defs number_subject_fields_def)
  have flag: "evaluate_condition test_runtime (VDict (subject_predicate ''Equals'' ''TRUE''))
      (VDict flag_subject_fields)"
    using string_conditions_compare_textual_forms
      [where c = "subject_predicate ''Equals'' ''TRUE''" and f = "''Subject''" and p = "VStr ''Equals''"
         and v = "VStr ''TRUE''" and col = "''subject''" and e = flag_subject_fields and x = "VBool True"
         and a = "''True''" and b = "''TRUE''" and rt = test_runtime, THEN conjunct1]
      subject_texts true_is_true
    by (simp add: defs flag_subject_fields_def)
  have labels: "evaluate_condition test_runtime (VDict (subject_predicate ''Contains'' ''inbox''))
      (VDict labels_subject_fields)"
    using string_conditions_compare_textual_forms
      [where c = "subject_predicate ''Contains'' ''inbox''" and f = "''Subject''" and p = "VStr ''Contains''"
         and v = "VStr ''inbox''" and col = "''subject''" and e = labels_subject_fields
         and x = "VList [VStr ''INBOX'', VInt 1, VNone]"
         and a = "''['' @ [CHR 0x27] @ ''INBOX'' @ [CHR 0x27] @ '', 1, None]''" and b = "''inbox''"
         and rt = test_runtime, THEN conjunct1]
      subject_texts labels_contain_inbox
    by (simp add: defs labels_subject_fields_def)
  from null_none null_empty absent_empty number flag labels show ?thesis by (intro conjI)
qed

text \<open>
  The claim as the specification states it fails where \<^verbatim>\<open>str\<close> raises: the subject
  that holds an integer of 4301 digits is present and its digits are no empty text, yet
  the condition that the subject does not equal the empty text is false.
\<close>

theorem string_conditions_no_text_counterexample:
  "\<not> evaluate_condition test_runtime (VDict (subject_predicate ''Does not equal'' []))
       (VDict huge_subject_fields) \<and>
   py_lower (str_int huge_int) \<noteq> py_lower []"
proof -
  have ev: "evaluate_condition test_runtime (VDict (subject_predicate ''Does not equal'' []))
       (VDict huge_subject_fields) =
     check_string_condition test_runtime (dict_get huge_subject_fields ''subject'' (VStr []))
       (VStr ''Does not equal'') (VStr [])"
    by (rule evaluate_condition_text [where f = "''Subject''"])
       (simp_all add: subject_predicate_def TEXT_FIELDS_def FIELD_MAPPING_def)
  have field: "dict_get huge_subject_fields ''subject'' (VStr []) = VInt huge_int"
    by (simp add: dict_get_def huge_subject_fields_def)
  have code_false: "\<not> evaluate_condition test_runtime (VDict (subject_predicate ''Does not equal'' []))
       (VDict huge_subject_fields)"
    unfolding ev field
    using huge_int_raises [of test_runtime] by (simp add: check_string_condition_raises)
  have digits: "py_lower (str_int huge_int) \<noteq> py_lower []"
    using str_int_nonempty [of huge_int] by (simp add: py_lower_def)
  from code_false digits show ?thesis by (rule conjI)
qed


section \<open>Loading and exceptions\<close>

lemma load_rules_handled:
  "read_json (rules_file self) = Inl FileNotFoundError \<Longrightarrow>
     load_rules read_json self = Inr (self\<lparr>rules := []\<rparr>)"
  "read_json (rules_file self) = Inl JSONDecodeError \<Longrightarrow>
     load_rules read_json self = Inr (self\<lparr>rules := []\<rparr>)"
  by (simp_all add: load_rules_def)

lemma load_rules_other_shape:
  assumes "read_json (rules_file self) = Inr data" and "\<forall>rs. data \<noteq> VList rs" and "\<forall>d. data \<noteq> VDict d"
  shows "load_rules read_json self = Inr (self\<lparr>rules := []\<rparr>)"
  using assms by (cases data) (simp_all add: load_rules_def)

lemma load_rules_parsed:
  assumes "read_json (rules_file self) = Inr data"
  shows "\<exists>rs. load_rules read_json self = Inr (self\<lparr>rules := rs\<rparr>)"
proof (cases data)
  case (VList rs)
  with assms have "load_rules read_json self = Inr (self\<lparr>rules := valid_rules_loop rs []\<rparr>)"
    by (simp add: load_rules_def)
  then show ?thesis by blast
next
  case (VDict d)
  with assms have "load_rules read_json self = Inr (self\<lparr>rules := valid_rules_loop [data] []\<rparr>)"
    by (simp add: load_rules_def)
  then show ?thesis by blast
qed (use assms load_rules_other_shape [of read_json self data] in blast)+

lemma load_rules_unhandled:
  assumes "read_json (rules_file self) = Inl e" and "e \<noteq> FileNotFoundError" and "e \<noteq> JSONDecodeError"
  shows "load_rules read_json self = Inl e"
  using assms by (cases e) (simp_all add: load_rules_def)

lemma process_emails_no_rules: "process_emails rt (self\<lparr>rules := []\<rparr>) emails = []"
  by (simp add: process_emails_def)

text \<open>
  Claim C4, as amended. Loading ends with an empty rule list and without an exception when
  the source file is missing (FileNotFoundError), when its text is not JSON
  (JSONDecodeError), and when the parsed document is neither an object nor a list; a
  document that parses never makes loading raise; and an engine with no rules still
  processes records (to the empty result). Any other exception of opening, reading or
  decoding the source has no handler in \<^verbatim>\<open>_load_rules\<close> and leaves it.
\<close>

theorem load_rules_handles_two_exceptions:
  "(read_json (rules_file self) = Inl FileNotFoundError \<longrightarrow>
      load_rules read_json self = Inr (self\<lparr>rules := []\<rparr>)) \<and>
   (read_json (rules_file self) = Inl JSONDecodeError \<longrightarrow>
      load_rules read_json self = Inr (self\<lparr>rules := []\<rparr>)) \<and>
   (read_json (rules_file self) = Inr data \<and> (\<forall>rs. data \<noteq> VList rs) \<and> (\<forall>d. data \<noteq> VDict d) \<longrightarrow>
      load_rules read_json self = Inr (self\<lparr>rules := []\<rparr>)) \<and>
   (read_json (rules_file self) = Inr data \<longrightarrow>
      (\<exists>rs. load_rules read_json self = Inr (self\<lparr>rules := rs\<rparr>))) \<and>
   (read_json (rules_file self) = Inl e \<and> e \<noteq> FileNotFoundError \<and> e \<noteq> JSONDecodeError \<longrightarrow>
      load_rules read_json self = Inl e) \<and>
   process_emails rt (self\<lparr>rules := []\<rparr>) emails = []"
  using load_rules_handled [of read_json self] load_rules_other_shape [of read_json self data]
    load_rules_parsed [of read_json self data] load_rules_unhandled [of read_json self e]
    process_emails_no_rules [of rt self emails]
  by blast

theorem load_rules_handles_two_exceptions_witness:
  "load_rules missing_source loaded_engine = Inr (loaded_engine\<lparr>rules := []\<rparr>) \<and>
   load_rules unreadable_source loaded_engine = Inl PermissionError"
  using load_rules_handles_two_exceptions
      [where read_json = missing_source and self = loaded_engine]
    load_rules_handles_two_exceptions
      [where read_json = unreadable_source and self = loaded_engine and e = PermissionError]
  by (simp add: missing_source_def unreadable_source_def)

text \<open>
  The claim as the specification states it, that loading never raises, fails on a source
  file that exists and may not be read: \<^verbatim>\<open>open\<close> raises PermissionError, for which
  \<^verbatim>\<open>_load_rules\<close> has no handler.
\<close>

theorem load_rules_raises_counterexample:
  "load_rules unreadable_source fresh_engine = Inl PermissionError"
  by (simp add: load_rules_def unreadable_source_def)

section \<open>Date conditions\<close>

lemma check_date_not_string:
  assumes "\<forall>s. value \<noteq> VStr s"
  shows "\<not> check_date_condition rt email_date predicate value"
proof -
  from assms have "value_split value = Inl AttributeError" by (cases "value") auto
  then show ?thesis
    by (cases "parse_email_date rt email_date")
       (simp_all add: check_date_condition_def check_date_condition_body_def)
qed

lemma check_date_token_count:
  assumes "length (py_split s) \<noteq> 2"
  shows "\<not> check_date_condition rt email_date predicate (VStr s)"
proof -
  have "(case py_split s of [p0, p1] \<Rightarrow> f p0 p1 | other \<Rightarrow> Inr False) = Inr False" for f :: "string \<Rightarrow> string \<Rightarrow> py_exc + bool"
    using assms by (auto split: list.splits)
  then show ?thesis
    by (cases "parse_email_date rt email_date")
       (simp_all add: check_date_condition_def check_date_condition_body_def)
qed

lemma check_date_not_integer:
  assumes "py_split s = [n, u]" and "\<forall>N. py_int n \<noteq> Inr N"
  shows "\<not> check_date_condition rt email_date predicate (VStr s)"
proof -
  from assms(2) obtain e where "py_int n = Inl e" by (cases "py_int n") auto
  with assms(1) show ?thesis
    by (cases "parse_email_date rt email_date")
       (simp_all add: check_date_condition_def check_date_condition_body_def)
qed

lemma check_date_unknown_unit:
  assumes "py_split s = [n, u]" and "unit_days (py_lower u) = None"
  shows "\<not> check_date_condition rt email_date predicate (VStr s)"
proof -
  have u: "py_lower u \<notin> set [''day'', ''days'']" "py_lower u \<notin> set [''month'', ''months'']"
    using assms(2) by (auto simp: unit_days_def split: if_splits)
  show ?thesis
    using assms(1) u
    by (cases "parse_email_date rt email_date"; cases "py_int n")
       (simp_all add: check_date_condition_def check_date_condition_body_def Let_def)
qed

lemma check_date_body_days:
  assumes "parse_email_date rt email_date = Inr email_datetime"
    and "py_split s = [n, u]" and "py_int n = Inr N" and "unit_days (py_lower u) = Some k"
  shows "check_date_condition_body rt email_date predicate (VStr s) =
         bind_exc (timedelta_days (N * k)) (\<lambda>delta.
         bind_exc (datetime_sub (Datetime (datetime_now rt) None) delta) (\<lambda>comparison_date.
           compare_dates predicate email_datetime comparison_date))"
proof (cases "py_lower u \<in> set [''day'', ''days'']")
  case True
  with assms(4) have "k = 1" by (simp add: unit_days_def)
  with True assms(1-3) show ?thesis
    by (simp add: check_date_condition_body_def Let_def)
next
  case False
  with assms(4) have "py_lower u \<in> set [''month'', ''months'']" and "k = 30"
    by (auto simp: unit_days_def split: if_splits)
  with False assms(1-3) show ?thesis
    by (simp add: check_date_condition_body_def Let_def)
qed

lemma check_date_unrepresentable:
  assumes "parse_email_date rt email_date = Inr email_datetime"
    and "py_split s = [n, u]" and "py_int n = Inr N" and "unit_days (py_lower u) = Some k"
    and "\<not> representable rt (N * k)"
  shows "\<not> check_date_condition rt email_date predicate (VStr s)"
  using assms(5)
  unfolding check_date_condition_def check_date_body_days [OF assms(1-4)]
  by (auto simp: representable_def threshold_def timedelta_days_def datetime_sub_def Let_def)

lemma check_date_representable:
  assumes "parse_email_date rt email_date = Inr (VDatetime (Datetime ts None))"
    and "py_split s = [n, u]" and "py_int n = Inr N" and "unit_days (py_lower u) = Some k"
    and "representable rt (N * k)"
  shows "check_date_condition rt email_date predicate (VStr s) =
         (if predicate = VStr ''Less than'' then ts < threshold rt (N * k)
          else if predicate = VStr ''Greater than'' then threshold rt (N * k) < ts
          else False)"
  using assms(5)
  unfolding check_date_condition_def check_date_body_days [OF assms(1-4)]
  by (auto simp: representable_def threshold_def timedelta_days_def datetime_sub_def Let_def
      compare_dates_def str_eq_iff)

text \<open>
  A timestamp with a UTC offset does not compare with the naive \<^verbatim>\<open>datetime.now()\<close>: the
  comparison raises TypeError and the condition is false, whatever the predicate and the
  value. \<^verbatim>\<open>gmail_fetcher.py\<close> stores \<^verbatim>\<open>parsedate_to_datetime(...).isoformat()\<close>, which
  carries the offset of the message's Date header.
\<close>

lemma aware_timestamp_never_matches:
  assumes "parse_email_date rt email_date = Inr (VDatetime (Datetime ts (Some offset)))"
  shows "\<not> check_date_condition rt email_date predicate value"
proof (cases "value")
  case (VStr s)
  show ?thesis
  proof (cases "length (py_split s) = 2")
    case False
    with VStr show ?thesis by (simp add: check_date_token_count)
  next
    case True
    then obtain n u where nu: "py_split s = [n, u]"
      by (cases "py_split s"; cases "tl (py_split s)") auto
    show ?thesis
    proof (cases "py_int n")
      case (Inl e)
      with nu VStr show ?thesis by (simp add: check_date_not_integer)
    next
      case (Inr N)
      show ?thesis
      proof (cases "unit_days (py_lower u)")
        case None
        with nu VStr show ?thesis by (simp add: check_date_unknown_unit)
      next
        case (Some k)
        show ?thesis
          unfolding VStr check_date_condition_def check_date_body_days [OF assms nu Inr Some]
          by (auto simp: timedelta_days_def datetime_sub_def Let_def compare_dates_def bind_exc_def
              split: sum.splits)
      qed
    qed
  qed
qed (simp_all add: check_date_not_string)

text \<open>A condition over the date field goes to \<^verbatim>\<open>_check_date_condition\<close>, with the
  value of the record's \<^verbatim>\<open>received_date\<close>, or the empty string when the record has no
  such key.\<close>

lemma evaluate_condition_received:
  assumes "map_of c ''field'' = Some (VStr ''Received'')"
    and "map_of c ''predicate'' = Some predicate" and "map_of c ''value'' = Some value"
  shows "evaluate_condition rt (VDict c) (VDict e) =
         check_date_condition rt (dict_get e ''received_date'' (VStr [])) predicate value"
  using assms
  by (simp add: evaluate_condition_def evaluate_condition_body_def FIELD_MAPPING_def)

lemma py_int_too_long:
  "MAX_STR_DIGITS < length (filter is_digit n) \<Longrightarrow> py_int n = Inl ValueError"
  by (simp add: py_int_def)

text \<open>
  Claim C3, as amended. Take a condition whose field is \<^verbatim>\<open>Received\<close> and a record whose
  \<^verbatim>\<open>received_date\<close> parses to a naive datetime with reading \<open>ts\<close>. The condition is
  evaluated by \<^verbatim>\<open>_check_date_condition\<close> on that date. It is false when its value is no
  string, when the value does not split into exactly two tokens, when the first token is
  no integer for \<^verbatim>\<open>int\<close> (a token of more than 4300 digits is none), and when the
  lowered second token is none of day, days, month, months. Otherwise, with \<open>N\<close> the
  integer and the day count \<open>N\<close> for day and days and \<open>N * 30\<close> for month and months: when
  the day count is within the range of \<^verbatim>\<open>timedelta\<close> and the threshold, now minus the day
  count, is a date of the years 1 to 9999, \<^verbatim>\<open>'Less than'\<close> holds exactly when \<open>ts\<close> is
  strictly before the threshold, \<^verbatim>\<open>'Greater than'\<close> exactly when it is strictly after,
  and any other predicate is false; when the day count or the threshold is out of range,
  the condition is false.
\<close>

theorem date_condition_compares_with_threshold:
  assumes "map_of c ''field'' = Some (VStr ''Received'')"
    and "map_of c ''predicate'' = Some predicate" and "map_of c ''value'' = Some v"
    and "parse_email_date rt (dict_get e ''received_date'' (VStr [])) =
           Inr (VDatetime (Datetime ts None))"
  shows "evaluate_condition rt (VDict c) (VDict e) =
           check_date_condition rt (dict_get e ''received_date'' (VStr [])) predicate v \<and>
         ((\<forall>s. v \<noteq> VStr s) \<longrightarrow> \<not> evaluate_condition rt (VDict c) (VDict e)) \<and>
         (v = VStr s \<and> length (py_split s) \<noteq> 2 \<longrightarrow>
            \<not> evaluate_condition rt (VDict c) (VDict e)) \<and>
         (v = VStr s \<and> py_split s = [n, u] \<and> (\<forall>N. py_int n \<noteq> Inr N) \<longrightarrow>
            \<not> evaluate_condition rt (VDict c) (VDict e)) \<and>
         (v = VStr s \<and> py_split s = [n, u] \<and> MAX_STR_DIGITS < length (filter is_digit n) \<longrightarrow>
            \<not> evaluate_condition rt (VDict c) (VDict e)) \<and>
         (v = VStr s \<and> py_split s = [n, u] \<and> unit_days (py_lower u) = None \<longrightarrow>
            \<not> evaluate_condition rt (VDict c) (VDict e)) \<and>
         (v = VStr s \<and> py_split s = [n, u] \<and> py_int n = Inr N \<and>
          unit_days (py_lower u) = Some k \<and> representable rt (N * k) \<longrightarrow>
            evaluate_condition rt (VDict c) (VDict e) =
              (if predicate = VStr ''Less than'' then ts < threshold rt (N * k)
               else if predicate = VStr ''Greater than'' then threshold rt (N * k) < ts
               else False)) \<and>
         (v = VStr s \<and> py_split s = [n, u] \<and> py_int n = Inr N \<and>
          unit_days (py_lower u) = Some k \<and> \<not> representable rt (N * k) \<longrightarrow>
            \<not> evaluate_condition rt (VDict c) (VDict e))"
proof -
  let ?date = "dict_get e ''received_date'' (VStr [])"
  have ev: "evaluate_condition rt (VDict c) (VDict e) = check_date_condition rt ?date predicate v"
    using assms(1-3) by (rule evaluate_condition_received)
  have a: "(\<forall>s. v \<noteq> VStr s) \<longrightarrow> \<not> evaluate_condition rt (VDict c) (VDict e)"
    unfolding ev using check_date_not_string by blast
  have b: "v = VStr s \<and> length (py_split s) \<noteq> 2 \<longrightarrow>
            \<not> evaluate_condition rt (VDict c) (VDict e)"
    unfolding ev using check_date_token_count by blast
  have c: "v = VStr s \<and> py_split s = [n, u] \<and> (\<forall>N. py_int n \<noteq> Inr N) \<longrightarrow>
            \<not> evaluate_condition rt (VDict c) (VDict e)"
    unfolding ev using check_date_not_integer by blast
  have c': "v = VStr s \<and> py_split s = [n, u] \<and> MAX_STR_DIGITS < length (filter is_digit n) \<longrightarrow>
            \<not> evaluate_condition rt (VDict c) (VDict e)"
  proof (intro impI, elim conjE)
    assume h: "v = VStr s" "py_split s = [n, u]" "MAX_STR_DIGITS < length (filter is_digit n)"
    from py_int_too_long [OF h(3)] have "\<forall>N. py_int n \<noteq> Inr N" by simp
    with h(1,2) show "\<not> evaluate_condition rt (VDict c) (VDict e)"
      unfolding ev using check_date_not_integer by blast
  qed
  have d: "v = VStr s \<and> py_split s = [n, u] \<and> unit_days (py_lower u) = None \<longrightarrow>
            \<not> evaluate_condition rt (VDict c) (VDict e)"
    unfolding ev using check_date_unknown_unit by blast
  have r: "v = VStr s \<and> py_split s = [n, u] \<and> py_int n = Inr N \<and>
          unit_days (py_lower u) = Some k \<and> representable rt (N * k) \<longrightarrow>
            evaluate_condition rt (VDict c) (VDict e) =
              (if predicate = VStr ''Less than'' then ts < threshold rt (N * k)
               else if predicate = VStr ''Greater than'' then threshold rt (N * k) < ts
               else False)"
  proof (intro impI, elim conjE)
    assume h: "v = VStr s" "py_split s = [n, u]" "py_int n = Inr N"
      "unit_days (py_lower u) = Some k" "representable rt (N * k)"
    show "evaluate_condition rt (VDict c) (VDict e) =
              (if predicate = VStr ''Less than'' then ts < threshold rt (N * k)
               else if predicate = VStr ''Greater than'' then threshold rt (N * k) < ts
               else False)"
      unfolding ev h(1) by (rule check_date_representable [OF assms(4) h(2-5)])
  qed
  have o: "v = VStr s \<and> py_split s = [n, u] \<and> py_int n = Inr N \<and>
          unit_days (py_lower u) = Some k \<and> \<not> representable rt (N * k) \<longrightarrow>
            \<not> evaluate_condition rt (VDict c) (VDict e)"
    unfolding ev using check_date_unrepresentable [OF assms(4)] by blast
  from ev a b c c' d r o show ?thesis by (intro conjI)
qed

text \<open>
  On the dates of \<^verbatim>\<open>test_evaluate_date_condition_less_than\<close> (ten days old) and
  \<^verbatim>\<open>test_evaluate_date_condition_greater_than\<close> (two days old).
\<close>

lemma old_email_date:
  "parse_email_date test_runtime (dict_get old_email_fields ''received_date'' (VStr [])) =
   Inr (VDatetime (Datetime 63870336000000000 None))"
  by code_simp

lemma recent_email_date:
  "parse_email_date test_runtime (dict_get recent_email_fields ''received_date'' (VStr [])) =
   Inr (VDatetime (Datetime 63871027200000000 None))"
  by code_simp

lemma seven_days:
  "py_split ''7 days'' = [''7'', ''days''] \<and> py_int ''7'' = Inr 7 \<and>
   unit_days (py_lower ''days'') = Some 1 \<and> representable test_runtime (7 * 1) \<and>
   threshold test_runtime (7 * 1) = 63870595200000000"
  by code_simp

lemma one_month:
  "py_split ''1 Month'' = [''1'', ''Month''] \<and> py_int ''1'' = Inr 1 \<and>
   unit_days (py_lower ''Month'') = Some 30 \<and> representable test_runtime (1 * 30) \<and>
   threshold test_runtime (1 * 30) = 63868608000000000"
  by code_simp

lemma a_week: "length (py_split ''a week or so'') \<noteq> 2"
  by code_simp

theorem date_condition_compares_with_threshold_witness:
  "evaluate_condition test_runtime (VDict (received_condition ''Less than'' ''7 days''))
     (VDict old_email_fields) \<and>
   evaluate_condition test_runtime (VDict (received_condition ''Greater than'' ''7 days''))
     (VDict recent_email_fields) \<and>
   \<not> evaluate_condition test_runtime (VDict (received_condition ''Less than'' ''7 days''))
     (VDict recent_email_fields) \<and>
   evaluate_condition test_runtime (VDict (received_condition ''Greater than'' ''1 Month''))
     (VDict old_email_fields) \<and>
   \<not> evaluate_condition test_runtime (VDict (received_condition ''Less than'' ''a week or so''))
     (VDict old_email_fields)"
proof -
  note pick = conjunct2 [THEN conjunct2, THEN conjunct2, THEN conjunct2, THEN conjunct2,
      THEN conjunct2, THEN conjunct1]
  have older: "evaluate_condition test_runtime (VDict (received_condition ''Less than'' ''7 days''))
     (VDict old_email_fields)"
    using date_condition_compares_with_threshold
      [OF _ _ _ old_email_date,
       where c = "received_condition ''Less than'' ''7 days''" and predicate = "VStr ''Less than''"
         and v = "VStr ''7 days''" and s = "''7 days''" and n = "''7''" and u = "''days''"
         and N = 7 and k = 1, THEN pick]
      seven_days
    by (simp add: received_condition_def)
  have newer: "evaluate_condition test_runtime (VDict (received_condition ''Greater than'' ''7 days''))
     (VDict recent_email_fields)"
    using date_condition_compares_with_threshold
      [OF _ _ _ recent_email_date,
       where c = "received_condition ''Greater than'' ''7 days''" and predicate = "VStr ''Greater than''"
         and v = "VStr ''7 days''" and s = "''7 days''" and n = "''7''" and u = "''days''"
         and N = 7 and k = 1, THEN pick]
      seven_days
    by (simp add: received_condition_def)
  have not_older: "\<not> evaluate_condition test_runtime (VDict (received_condition ''Less than'' ''7 days''))
     (VDict recent_email_fields)"
    using date_condition_compares_with_threshold
      [OF _ _ _ recent_email_date,
       where c = "received_condition ''Less than'' ''7 days''" and predicate = "VStr ''Less than''"
         and v = "VStr ''7 days''" and s = "''7 days''" and n = "''7''" and u = "''days''"
         and N = 7 and k = 1, THEN pick]
      seven_days
    by (simp add: received_condition_def)
  have month: "evaluate_condition test_runtime (VDict (received_condition ''Greater than'' ''1 Month''))
     (VDict old_email_fields)"
    using date_condition_compares_with_threshold
      [OF _ _ _ old_email_date,
       where c = "received_condition ''Greater than'' ''1 Month''" and predicate = "VStr ''Greater than''"
         and v = "VStr ''1 Month''" and s = "''1 Month''" and n = "''1''" and u = "''Month''"
         and N = 1 and k = 30, THEN pick]
      one_month
    by (simp add: received_condition_def)
  have week: "\<not> evaluate_condition test_runtime (VDict (received_condition ''Less than'' ''a week or so''))
     (VDict old_email_fields)"
    using date_condition_compares_with_threshold
      [OF _ _ _ old_email_date,
       where c = "received_condition ''Less than'' ''a week or so''" and predicate = "VStr ''Less than''"
         and v = "VStr ''a week or so''" and s = "''a week or so''",
       THEN conjunct2, THEN conjunct2, THEN conjunct1]
      a_week
    by (simp add: received_condition_def)
  from older newer not_older month week show ?thesis by (intro conjI)
qed

text \<open>
  The claim as the specification states it fails where Python cannot represent the
  threshold: 4000000 days before the clock of the fixture lies before the year 1, the
  subtraction raises OverflowError, the handler of \<^verbatim>\<open>_check_date_condition\<close> returns
  false, and yet the record's timestamp is strictly later than now minus 4000000 days.
\<close>

theorem date_condition_threshold_counterexample:
  "parse_email_date test_runtime (dict_get recent_email_fields ''received_date'' (VStr [])) =
     Inr (VDatetime (Datetime 63871027200000000 None)) \<and>
   py_split ''4000000 days'' = [''4000000'', ''days''] \<and>
   py_int ''4000000'' = Inr 4000000 \<and>
   datetime_now test_runtime - 4000000 * 86400000000 < 63871027200000000 \<and>
   \<not> evaluate_condition test_runtime (VDict (received_condition ''Greater than'' ''4000000 days''))
       (VDict recent_email_fields)"
  by code_simp

text \<open>
  A record as \<^verbatim>\<open>gmail_fetcher.py\<close> stores it, ten days old and with the offset of its
  Date header, is not older than seven days for the engine.
\<close>

lemma fetched_message_date:
  "parse_email_date test_runtime (dict_get fetched_email_fields ''received_date'' (VStr [])) =
   Inr (VDatetime (Datetime 63870336000000000 (Some 0)))"
  by code_simp

lemma fetched_message_never_older:
  "\<not> evaluate_condition test_runtime (VDict (received_condition ''Less than'' ''7 days''))
       (VDict fetched_email_fields)"
proof -
  have "evaluate_condition test_runtime (VDict (received_condition ''Less than'' ''7 days''))
       (VDict fetched_email_fields) =
     check_date_condition test_runtime (dict_get fetched_email_fields ''received_date'' (VStr []))
       (VStr ''Less than'') (VStr ''7 days'')"
    by (rule evaluate_condition_received) (simp_all add: received_condition_def)
  then show ?thesis
    by (simp add: aware_timestamp_never_matches [OF fetched_message_date])
qed

section \<open>Batch processing\<close>

lemma matching_loop_filter:
  "matching_loop rt rule emails acc = acc @ filter (evaluate_rule rt rule) emails"
  by (induction emails arbitrary: acc) auto

lemma get_matching_emails_filter:
  "get_matching_emails rt emails rule = filter (evaluate_rule rt rule) emails"
  by (simp add: get_matching_emails_def matching_loop_filter)

lemma rule_label_inj: "rule_label i = rule_label j \<Longrightarrow> i = j"
  by (simp add: rule_label_def str_nat_inj)

lemma str_int_Suc: "str_int (int i + 1) = str_nat (Suc i)"
  by (simp add: str_int_def nat_add_distrib)

lemma dict_set_fresh: "k \<notin> fst ` set d \<Longrightarrow> dict_set d k v = d @ [(k, v)]"
  by (induction d) auto

lemma process_loop_append:
  assumes "fst ` set results \<subseteq> rule_label ` {..i}"
  shows "process_loop rt emails i rs results =
         results @ map (\<lambda>(j, r). (rule_label (Suc j), result_entry rt emails r)) (enumerate i rs)"
  using assms
proof (induction rs arbitrary: i results)
  case Nil
  then show ?case by simp
next
  case (Cons r rs)
  let ?entry = "(rule_label (Suc i), result_entry rt emails r)"
  have fresh: "rule_label (Suc i) \<notin> fst ` set results"
  proof
    assume "rule_label (Suc i) \<in> fst ` set results"
    with Cons.prems obtain j where "j \<le> i" "rule_label (Suc i) = rule_label j" by auto
    then show False using rule_label_inj by fastforce
  qed
  have inv: "fst ` set (results @ [?entry]) \<subseteq> rule_label ` {..Suc i}"
    using Cons.prems by (auto simp: atMost_Suc)
  have "process_loop rt emails i (r # rs) results =
        process_loop rt emails (Suc i) rs (results @ [?entry])"
    using fresh
    by (simp add: Let_def str_int_Suc get_matching_emails_filter dict_set_fresh
        result_entry_def rule_label_def del: of_nat_Suc)
  also have "\<dots> = (results @ [?entry]) @
      map (\<lambda>(j, r). (rule_label (Suc j), result_entry rt emails r)) (enumerate (Suc i) rs)"
    by (rule Cons.IH [OF inv])
  finally show ?case by simp
qed

lemma process_emails_map:
  "process_emails rt self emails =
   map (\<lambda>(j, r). (rule_label (Suc j), result_entry rt emails r)) (enumerate 0 (rules self))"
  unfolding process_emails_def
  using process_loop_append [of "[]" 0 rt emails "rules self"] by simp

lemma process_emails_keys:
  "map fst (process_emails rt self emails) = map (\<lambda>j. rule_label (Suc j)) [0..<length (rules self)]"
proof -
  have a: "map fst (process_emails rt self emails) =
        map (\<lambda>x. rule_label (Suc (fst x))) (enumerate 0 (rules self))"
    by (simp add: process_emails_map case_prod_unfold o_def)
  have b: "map (\<lambda>x. rule_label (Suc (fst x))) (enumerate 0 (rules self)) =
        map (\<lambda>j. rule_label (Suc j)) (map fst (enumerate 0 (rules self)))"
    by (simp only: map_map o_def)
  have c: "map fst (enumerate 0 (rules self)) = [0..<length (rules self)]"
    by simp
  show ?thesis by (simp only: a b c)
qed

lemma process_emails_distinct: "distinct (map fst (process_emails rt self emails))"
  unfolding process_emails_keys
  by (auto simp: distinct_map intro!: inj_onI dest: rule_label_inj)

text \<open>
  Claim C7. The result of \<^verbatim>\<open>process_emails\<close> is, rule by rule in load order, the label
  \<^verbatim>\<open>rule_<position>\<close> (positions counted from 1) paired with the rule, the sublist of the
  input records that match the rule (input order kept) and the length of that sublist. The
  labels are pairwise distinct, so the dictionary has exactly one entry per loaded rule.
\<close>

theorem process_emails_one_entry_per_rule:
  "process_emails rt self emails =
     map (\<lambda>(j, r). (rule_label (Suc j), result_entry rt emails r)) (enumerate 0 (rules self)) \<and>
   distinct (map fst (process_emails rt self emails)) \<and>
   length (process_emails rt self emails) = length (rules self)"
  using process_emails_map [of rt self emails] process_emails_distinct [of rt self emails]
  by simp

lemma fixture_rule_matches_sample: "evaluate_rule test_runtime valid_rule_fixture sample_email"
  by code_simp

lemma fixture_rule_rejects_spam: "\<not> evaluate_rule test_runtime valid_rule_fixture spam_email"
  by code_simp

lemma rule_label_1: "rule_label (Suc 0) = ''rule_1''"
  by code_simp

theorem process_emails_one_entry_per_rule_witness:
  "process_emails test_runtime loaded_engine [spam_email, sample_email] =
     [(''rule_1'',
       VDict [(''rule'', valid_rule_fixture),
              (''matching_emails'', VList [sample_email]),
              (''count'', VInt 1)])]"
  using process_emails_one_entry_per_rule [of test_runtime loaded_engine "[spam_email, sample_email]"]
    fixture_rule_matches_sample fixture_rule_rejects_spam rule_label_1
  by (simp add: loaded_engine_def result_entry_def)

section \<open>Unrecognised keys\<close>

lemma validate_rule_extra_key:
  assumes "k \<notin> set [''predicate'', ''conditions'', ''actions'']"
  shows "validate_rule (VDict (dict_set r k x)) = validate_rule (VDict r)"
proof -
  from assms have "''predicate'' \<noteq> k" "''conditions'' \<noteq> k" "''actions'' \<noteq> k" by auto
  then have "map_of (dict_set r k x) ''predicate'' = map_of r ''predicate''"
    "map_of (dict_set r k x) ''conditions'' = map_of r ''conditions''"
    "map_of (dict_set r k x) ''actions'' = map_of r ''actions''"
    by (simp_all only: map_of_dict_set if_False)
  then show ?thesis
    by (simp only: validate_rule_spec spec_valid_rule_def pyval.case)
qed

lemma validate_condition_extra_key:
  assumes "k \<notin> set [''field'', ''predicate'', ''value'']"
  shows "validate_condition (VDict (dict_set c k x)) = validate_condition (VDict c)"
proof -
  from assms have "''field'' \<noteq> k" "''predicate'' \<noteq> k" "''value'' \<noteq> k" by auto
  then have "map_of (dict_set c k x) ''field'' = map_of c ''field''"
    "map_of (dict_set c k x) ''predicate'' = map_of c ''predicate''"
    "map_of (dict_set c k x) ''value'' = map_of c ''value''"
    by (simp_all only: map_of_dict_set if_False)
  then show ?thesis
    by (simp only: validate_condition_spec spec_valid_condition_def pyval.case)
qed

lemma validate_action_extra_key:
  assumes "k \<notin> set [''type'', ''value'']"
  shows "validate_action (VDict (dict_set a k x)) = validate_action (VDict a)"
proof -
  from assms have "''type'' \<noteq> k" "''value'' \<noteq> k" by auto
  then have "map_of (dict_set a k x) ''type'' = map_of a ''type''"
    "map_of (dict_set a k x) ''value'' = map_of a ''value''"
    by (simp_all only: map_of_dict_set if_False)
  then show ?thesis
    by (simp only: validate_action_spec spec_valid_action_def pyval.case)
qed

lemma load_rules_verbatim:
  "read_json (rules_file self) = Inr (VList doc) \<Longrightarrow>
   load_rules read_json self = Inr (self\<lparr>rules := filter validate_rule doc\<rparr>)"
  by (simp add: load_rules_def valid_rules_loop_filter)

lemma process_emails_rule_field:
  "map (\<lambda>entry. py_getitem (snd entry) ''rule'') (process_emails rt self emails) =
   map Inr (rules self)"
proof -
  have "map (\<lambda>entry. py_getitem (snd entry) ''rule'') (process_emails rt self emails) =
        map (\<lambda>x. Inr (snd x)) (enumerate 0 (rules self))"
    by (simp add: process_emails_map result_entry_def case_prod_unfold o_def)
  also have "\<dots> = map Inr (map snd (enumerate 0 (rules self)))"
    by (simp only: map_map o_def)
  finally show ?thesis by simp
qed

text \<open>
  Claim C9. A key other than the required ones changes the verdict of no validator: not of
  \<^verbatim>\<open>_validate_rule\<close> (keys other than predicate, conditions, actions), not of
  \<^verbatim>\<open>_validate_condition\<close> (other than field, predicate, value), not of
  \<^verbatim>\<open>_validate_action\<close> (other than type, value). Loading stores the accepted rules as
  they stand in the document, and the \<^verbatim>\<open>'rule'\<close> entry of each result of
  \<^verbatim>\<open>process_emails\<close> is the loaded rule itself.
\<close>

theorem validation_ignores_extra_keys:
  "(k \<notin> set [''predicate'', ''conditions'', ''actions''] \<longrightarrow>
      validate_rule (VDict (dict_set r k x)) = validate_rule (VDict r)) \<and>
   (k \<notin> set [''field'', ''predicate'', ''value''] \<longrightarrow>
      validate_condition (VDict (dict_set c k x)) = validate_condition (VDict c)) \<and>
   (k \<notin> set [''type'', ''value''] \<longrightarrow>
      validate_action (VDict (dict_set a k x)) = validate_action (VDict a)) \<and>
   (read_json (rules_file self) = Inr (VList doc) \<longrightarrow>
      load_rules read_json self = Inr (self\<lparr>rules := filter validate_rule doc\<rparr>)) \<and>
   map (\<lambda>entry. py_getitem (snd entry) ''rule'') (process_emails rt self emails) =
     map Inr (rules self)"
  using validate_rule_extra_key [of k r x] validate_condition_extra_key [of k c x]
    validate_action_extra_key [of k a x] load_rules_verbatim [of read_json self doc]
    process_emails_rule_field [of rt self emails]
  by blast

lemma valid_rule_fields_valid: "validate_rule (VDict valid_rule_fields)"
  by code_simp

lemma annotated_condition_valid: "validate_condition (VDict annotated_condition)"
  by code_simp

lemma annotated_action_valid: "validate_action (VDict annotated_action)"
  by code_simp

theorem validation_ignores_extra_keys_witness:
  "validate_rule (VDict (dict_set valid_rule_fields ''name'' (VStr ''first rule''))) \<and>
   validate_condition (VDict (dict_set annotated_condition ''note'' VNone)) \<and>
   validate_action (VDict (dict_set annotated_action ''label'' (VStr ''x''))) \<and>
   load_rules annotated_source fresh_engine =
     Inr (fresh_engine\<lparr>rules := [VDict (dict_set valid_rule_fields ''name'' (VStr ''first rule''))]\<rparr>)"
  using validation_ignores_extra_keys
      [where k = "''name''" and r = valid_rule_fields and x = "VStr ''first rule''"
         and read_json = annotated_source and self = fresh_engine
         and doc = "[VDict (dict_set valid_rule_fields ''name'' (VStr ''first rule''))]"]
    validation_ignores_extra_keys
      [where k = "''note''" and c = annotated_condition and x = VNone]
    validation_ignores_extra_keys
      [where k = "''label''" and a = annotated_action and x = "VStr ''x''"]
    valid_rule_fields_valid annotated_condition_valid annotated_action_valid
  by (simp add: annotated_source_def)

end
